theory Spec2Isabelle
  imports Complex_Main
begin

section \<open>Python values, exceptions and dictionaries\<close>

text \<open>
  The nested mappings that \<^verbatim>\<open>update\<close> merges hold strings, numbers, \<^verbatim>\<open>None\<close> and
  further mappings; every other object (a list, a tuple, a set) is \<open>POther\<close>. A Python
  \<^verbatim>\<open>bool\<close> is an \<^verbatim>\<open>int\<close> and is a \<open>PInt\<close>. Dictionaries keep insertion order, so
  they are association lists with distinct keys, read with \<open>map_of\<close> and written with
  \<open>dict_set\<close>: an existing key keeps its position, a new key goes to the end.
\<close>

datatype pyval =
    PStr string
  | PInt int
  | PFloat real
  | PNone
  | PDict "(string \<times> pyval) list"
  | POther

text \<open>
  The exceptions of \<^verbatim>\<open>wheel_abi.py\<close>: the two \<^verbatim>\<open>RuntimeError\<close>s it raises itself
  (\<open>InvalidWheel\<close> with the library's file name, \<open>UpdateError\<close> with the arguments
  \<^verbatim>\<open>d, k\<close> of \<^verbatim>\<open>RuntimeError('!', d, k)\<close>) and the built-in ones its dictionary
  operations raise.
\<close>

datatype error =
    InvalidWheel string
  | UpdateError pyval string
  | AttributeError
  | TypeError
  | KeyError string

fun dict_set :: "'k \<Rightarrow> 'v \<Rightarrow> ('k \<times> 'v) list \<Rightarrow> ('k \<times> 'v) list" where
  "dict_set k v [] = [(k, v)]"
| "dict_set k v ((k', v') # kvs) =
     (if k' = k then (k', v) # kvs else (k', v') # dict_set k v kvs)"

text \<open>\<^verbatim>\<open>d[k]\<close> on a dictionary: \<^verbatim>\<open>KeyError\<close> when the key is missing.\<close>

definition dict_getitem :: "(string \<times> 'v) list \<Rightarrow> string \<Rightarrow> error + 'v" where
  "dict_getitem d k = (case map_of d k of None \<Rightarrow> Inl (KeyError k) | Some v \<Rightarrow> Inr v)"

text \<open>\<^verbatim>\<open>d.get(k, {})\<close>: only a mapping has \<^verbatim>\<open>get\<close>.\<close>

fun py_get :: "pyval \<Rightarrow> string \<Rightarrow> error + pyval" where
  "py_get (PDict kvs) k = Inr (case map_of kvs k of Some x \<Rightarrow> x | None \<Rightarrow> PDict [])"
| "py_get _ k = Inl AttributeError"

text \<open>\<^verbatim>\<open>d[k] = v\<close>: a string, a number, \<^verbatim>\<open>None\<close>, a list, a tuple or a set refuses a
  string key.\<close>

fun py_setitem :: "pyval \<Rightarrow> string \<Rightarrow> pyval \<Rightarrow> error + pyval" where
  "py_setitem (PDict kvs) k v = Inr (PDict (dict_set k v kvs))"
| "py_setitem _ k v = Inl TypeError"

text \<open>
  \<^verbatim>\<open>update(d, u)\<close>, lines 226-235. The second argument is \<^verbatim>\<open>u.items()\<close>. The source
  mutates \<^verbatim>\<open>d\<close> in place and returns it; no object of \<^verbatim>\<open>u\<close> is ever stored in
  \<^verbatim>\<open>d\<close> (a mapping is merged into a mapping of \<^verbatim>\<open>d\<close> or into a fresh \<^verbatim>\<open>{}\<close>, and
  scalars are immutable), so returning the new value is the same.
\<close>

fun update :: "pyval \<Rightarrow> (string \<times> pyval) list \<Rightarrow> error + pyval" where
  "update d [] = Inr d"
| "update d ((k, v) # u) =
     (case v of
        PDict vd \<Rightarrow>
          (case py_get d k of
             Inl e \<Rightarrow> Inl e
           | Inr d0 \<Rightarrow>
               (case update d0 vd of
                  Inl e \<Rightarrow> Inl e
                | Inr r \<Rightarrow>
                    (case py_setitem d k r of
                       Inl e \<Rightarrow> Inl e
                     | Inr d' \<Rightarrow> update d' u)))
      | POther \<Rightarrow> Inl (UpdateError d k)
      | _ \<Rightarrow>
          (case py_setitem d k v of
             Inl e \<Rightarrow> Inl e
           | Inr d' \<Rightarrow> update d' u))"

section \<open>Paths\<close>

text \<open>\<^verbatim>\<open>fn.split(os.sep)\<close> on Linux, where ELF files live: \<^verbatim>\<open>os.sep\<close> is \<^verbatim>\<open>/\<close>. The
  result is never empty.\<close>

fun split_sep :: "char \<Rightarrow> string \<Rightarrow> string list" where
  "split_sep c [] = [[]]"
| "split_sep c (x # xs) =
     (if x = c then [] # split_sep c xs
      else (case split_sep c xs of
              [] \<Rightarrow> [[x]]
            | w # ws \<Rightarrow> (x # w) # ws))"

text \<open>\<^verbatim>\<open>os.path.basename\<close>: what follows the last \<^verbatim>\<open>/\<close>.\<close>

definition basename :: "string \<Rightarrow> string" where
  "basename p = rev (takeWhile (\<lambda>c. c \<noteq> CHR ''/'') (rev p))"

section \<open>What the collaborators hand over\<close>

text \<open>
  \<^verbatim>\<open>elfutils\<close>, \<^verbatim>\<open>lddtree\<close>, \<^verbatim>\<open>policy\<close> and \<^verbatim>\<open>genericpkgctx\<close> are imported by
  \<^verbatim>\<open>wheel_abi.py\<close>. An \<^verbatim>\<open>ELFFile\<close> handle is modelled by what
  they read from it: the stream of (dependency name, version string) pairs, the names of
  the imported (undefined) dynamic symbols, and the narrow-unicode symbols found.
\<close>

record elf_file =
  elf_versioned_symbols :: "(string \<times> string) list"
  elf_imported_symbols :: "string list"
  elf_ucs2_symbols :: "string list"

definition elf_find_versioned_symbols :: "elf_file \<Rightarrow> (string \<times> string) list" where
  "elf_find_versioned_symbols elf = elf_versioned_symbols elf"

definition elf_find_ucs2_symbols :: "elf_file \<Rightarrow> string list" where
  "elf_find_ucs2_symbols elf = elf_ucs2_symbols elf"

text \<open>
  Modelled from the spec: \<^verbatim>\<open>elfutils.elf_references_PyFPE_jbuf\<close> is imported, its body
  is not part of \<^verbatim>\<open>wheel_abi.py\<close>. The spec: references to the
  floating-point-exception-buffer symbol are detected by exact name match against the
  object's imported symbol table.
\<close>

definition elf_references_PyFPE_jbuf :: "elf_file \<Rightarrow> bool" where
  "elf_references_PyFPE_jbuf elf = (''PyFPE_jbuf'' \<in> set (elf_imported_symbols elf))"

text \<open>The dependency tree \<^verbatim>\<open>lddtree(fn)\<close>: the names under \<^verbatim>\<open>'needed'\<close>, and the
  resolved libraries (name, real path or \<^verbatim>\<open>None\<close>).\<close>

record elftree =
  tree_needed :: "string list"
  tree_libs :: "(string \<times> string option) list"

text \<open>One ELF file of the package, as \<^verbatim>\<open>elf_file_filter(ctx.iter_files())\<close> yields it,
  with what \<^verbatim>\<open>elf_is_python_extension(fn, elf)\<close> and \<^verbatim>\<open>lddtree(fn)\<close> return for it.\<close>

record wheel_file =
  file_fn :: string
  file_elf :: elf_file
  file_is_py_ext :: bool
  file_py_ver :: "int option"
  file_elftree :: elftree

record wheel =
  ctx_path :: string
  wheel_files :: "wheel_file list"

text \<open>One policy's entry of the external references, \<^verbatim>\<open>{'libs': {soname: realpath},
  'priority': n}\<close>; a library that was not found has the real path \<^verbatim>\<open>None\<close>.\<close>

record policy_refs =
  ref_libs :: "(string \<times> string option) list"
  ref_priority :: int

type_synonym external_refs = "(string \<times> policy_refs) list"

text \<open>\<^verbatim>\<open>Dict[str, Set[str]]\<close>, a \<^verbatim>\<open>defaultdict\<close> whose missing keys read as the empty
  set.\<close>

type_synonym vsyms = "(string \<times> string set) list"

record policy =
  policy_name :: string
  policy_priority :: int

text \<open>
  The functions and constants imported from \<^verbatim>\<open>policy\<close>, and the files of the system
  that \<^verbatim>\<open>elf_file_filter\<close> opens when it is given the real paths of external
  libraries (\<open>None\<close>: no such file, or not an ELF file).
\<close>

record env =
  load_policies :: "policy list"
  lddtree_external_references :: "elftree \<Rightarrow> string \<Rightarrow> external_refs"
  versioned_symbols_policy :: "vsyms \<Rightarrow> int"
  get_policy_name :: "int \<Rightarrow> string option"
  POLICY_PRIORITY_LOWEST :: int
  POLICY_PRIORITY_HIGHEST :: int
  elf_at :: "string \<Rightarrow> elf_file option"

text \<open>
  Modelled from the spec: \<^verbatim>\<open>elfutils.elf_file_filter\<close> is imported, its body is not part
  of \<^verbatim>\<open>wheel_abi.py\<close>. The spec: given a path, it returns whether the file is
  ELF-formatted and, if so, a handle; a file that fails to parse as ELF is left out.
\<close>

definition elf_file_filter :: "env \<Rightarrow> string list \<Rightarrow> (string \<times> elf_file) list" where
  "elf_file_filter e paths =
     concat (map (\<lambda>p. case elf_at e p of None \<Rightarrow> [] | Some elf \<Rightarrow> [(p, elf)]) paths)"

section \<open>Versioned-symbol dictionaries\<close>

definition vs_get :: "vsyms \<Rightarrow> string \<Rightarrow> string set" where
  "vs_get d k = (case map_of d k of None \<Rightarrow> {} | Some s \<Rightarrow> s)"

text \<open>\<^verbatim>\<open>d[key].add(value)\<close> on the \<^verbatim>\<open>defaultdict\<close>.\<close>

definition vs_add :: "string \<Rightarrow> string \<Rightarrow> vsyms \<Rightarrow> vsyms" where
  "vs_add k v d = dict_set k (insert v (vs_get d k)) d"

text \<open>\<^verbatim>\<open>d[k].update(s)\<close> on the \<^verbatim>\<open>defaultdict\<close>.\<close>

definition vs_update :: "string \<Rightarrow> string set \<Rightarrow> vsyms \<Rightarrow> vsyms" where
  "vs_update k s d = dict_set k (vs_get d k \<union> s) d"

text \<open>The loop \<^verbatim>\<open>for key, value in elf_find_versioned_symbols(elf): d[key].add(value)\<close>
  of lines 60-62 and 135-137.\<close>

definition add_versioned_symbols :: "elf_file \<Rightarrow> vsyms \<Rightarrow> vsyms" where
  "add_versioned_symbols elf d =
     fold (\<lambda>(key, val) acc. vs_add key val acc) (elf_find_versioned_symbols elf) d"

section \<open>\<^verbatim>\<open>get_wheel_elfdata\<close>\<close>

text \<open>
  The local variables of \<^verbatim>\<open>get_wheel_elfdata\<close>, lines 35-40. The source returns all of
  them but \<^verbatim>\<open>nonpy_elftree\<close> as a tuple; the record keeps that field too, and no
  caller reads it.
\<close>

record elfdata =
  d_full_elftree :: "(string \<times> elftree) list"
  d_nonpy_elftree :: "(string \<times> elftree) list"
  d_full_external_refs :: "(string \<times> external_refs) list"
  d_versioned_symbols :: vsyms
  d_uses_ucs2_symbols :: bool
  d_uses_PyFPE_jbuf :: bool

definition empty_elfdata :: elfdata where
  "empty_elfdata =
     \<lparr>d_full_elftree = [], d_nonpy_elftree = [], d_full_external_refs = [],
      d_versioned_symbols = [], d_uses_ucs2_symbols = False, d_uses_PyFPE_jbuf = False\<rparr>"

text \<open>One pass of the loop of lines 43-79 over a file that is not under
  \<^verbatim>\<open>purelib\<close>.\<close>

definition process_elf :: "env \<Rightarrow> string \<Rightarrow> wheel_file \<Rightarrow> elfdata \<Rightarrow> elfdata" where
  "process_elf e path f st =
     (let fn = file_fn f;
          elf = file_elf f;
          tree = file_elftree f;
          st1 = st\<lparr>d_versioned_symbols := add_versioned_symbols elf (d_versioned_symbols st)\<rparr>
      in if file_is_py_ext f then
           st1\<lparr>d_full_elftree := dict_set fn tree (d_full_elftree st1),
               d_uses_PyFPE_jbuf := (d_uses_PyFPE_jbuf st1 \<or> elf_references_PyFPE_jbuf elf),
               d_uses_ucs2_symbols :=
                 (if file_py_ver f = Some 2
                  then d_uses_ucs2_symbols st1 \<or> elf_find_ucs2_symbols elf \<noteq> []
                  else d_uses_ucs2_symbols st1),
               d_full_external_refs :=
                 dict_set fn (lddtree_external_references e tree path) (d_full_external_refs st1)\<rparr>
         else st1\<lparr>d_nonpy_elftree := dict_set fn tree (d_nonpy_elftree st1)\<rparr>)"

text \<open>The loop of lines 43-79: the first file with a path component \<^verbatim>\<open>purelib\<close> raises,
  and nothing is returned.\<close>

fun elf_loop :: "env \<Rightarrow> string \<Rightarrow> wheel_file list \<Rightarrow> elfdata \<Rightarrow> error + elfdata" where
  "elf_loop e path [] st = Inr st"
| "elf_loop e path (f # fs) st =
     (let so_path_split = split_sep CHR ''/'' (file_fn f)
      in if ''purelib'' \<in> set so_path_split then Inl (InvalidWheel (last so_path_split))
         else elf_loop e path fs (process_elf e path f st))"

text \<open>Lines 82-87: the names needed by any ELF file of the package.\<close>

definition needed_libs :: "elfdata \<Rightarrow> string set" where
  "needed_libs st =
     set (concat (map (\<lambda>(fn, tree). tree_needed tree) (d_full_elftree st @ d_nonpy_elftree st)))"

text \<open>Lines 89-96. \<^verbatim>\<open>nonpy_elftree[fn]\<close> is the value stored under the key the loop is
  at.\<close>

definition promote_nonpy :: "env \<Rightarrow> string \<Rightarrow> elfdata \<Rightarrow> elfdata" where
  "promote_nonpy e path st =
     (let needed = needed_libs st
      in fold (\<lambda>(fn, tree) acc.
                 if basename fn \<notin> needed then
                   acc\<lparr>d_full_elftree := dict_set fn tree (d_full_elftree acc),
                       d_full_external_refs :=
                         dict_set fn (lddtree_external_references e tree path)
                           (d_full_external_refs acc)\<rparr>
                 else acc)
           (d_nonpy_elftree st) st)"

text \<open>The body of \<^verbatim>\<open>get_wheel_elfdata\<close>, given the content of the package at
  \<^verbatim>\<open>wheel_fn\<close> (Python keeps it as \<^verbatim>\<open>get_wheel_elfdata.__wrapped__\<close>).\<close>

definition get_wheel_elfdata_wrapped :: "env \<Rightarrow> wheel \<Rightarrow> error + elfdata" where
  "get_wheel_elfdata_wrapped e w =
     (case elf_loop e (ctx_path w) (wheel_files w) empty_elfdata of
        Inl x \<Rightarrow> Inl x
      | Inr st \<Rightarrow> Inr (promote_nonpy e (ctx_path w) st))"

text \<open>
  \<^verbatim>\<open>@functools.lru_cache()\<close>, line 33: the key is the argument, here the string
  \<^verbatim>\<open>wheel_fn\<close>; the default \<^verbatim>\<open>maxsize\<close> is 128. The cache lists its entries from
  the most to the least recently used. A hit returns the stored result and never calls
  the function; a miss calls it, stores a result that was returned (an exception is not
  stored) and drops the least recently used entry when the cache is full.
\<close>

definition lru_cache_call ::
  "nat \<Rightarrow> ('k \<Rightarrow> error + 'v) \<Rightarrow> ('k \<times> 'v) list \<Rightarrow> 'k \<Rightarrow> (error + 'v) \<times> ('k \<times> 'v) list" where
  "lru_cache_call maxsize f cache k =
     (case map_of cache k of
        Some v \<Rightarrow> (Inr v, (k, v) # filter (\<lambda>(k', v'). k' \<noteq> k) cache)
      | None \<Rightarrow>
          (case f k of
             Inl x \<Rightarrow> (Inl x, cache)
           | Inr v \<Rightarrow> (Inr v, take maxsize ((k, v) # cache))))"

text \<open>\<^verbatim>\<open>get_wheel_elfdata(wheel_fn)\<close> as its callers see it. \<open>fs\<close> is the content of
  the packages on disk at the time of the call.\<close>

definition get_wheel_elfdata ::
  "env \<Rightarrow> (string \<Rightarrow> wheel) \<Rightarrow> (string \<times> elfdata) list \<Rightarrow> string \<Rightarrow>
     (error + elfdata) \<times> (string \<times> elfdata) list" where
  "get_wheel_elfdata e fs cache wheel_fn =
     lru_cache_call 128 (\<lambda>fn. get_wheel_elfdata_wrapped e (fs fn)) cache wheel_fn"

text \<open>A sequence of calls of \<^verbatim>\<open>get_wheel_elfdata\<close> in one process, each with the
  content of the packages on disk at its time and its path; the cache is handed from
  each call to the next.\<close>

definition run_calls ::
  "env \<Rightarrow> ((string \<Rightarrow> wheel) \<times> string) list \<Rightarrow> (string \<times> elfdata) list \<Rightarrow>
     (string \<times> elfdata) list" where
  "run_calls e calls cache = fold (\<lambda>(fs, fn) c. snd (get_wheel_elfdata e fs c fn)) calls cache"

section \<open>The external references as a Python dictionary\<close>

text \<open>
  \<^verbatim>\<open>update\<close> merges the dictionaries that \<^verbatim>\<open>lddtree_external_references\<close> returns
  and tells mappings from scalars by \<^verbatim>\<open>isinstance\<close>; the other functions read them
  at the type \<open>external_refs\<close>. \<open>enc_\<close> writes a typed value as the dictionary it is,
  \<open>dec_\<close> reads a dictionary at that type (\<^verbatim>\<open>KeyError\<close> for a missing
  \<^verbatim>\<open>'libs'\<close> or \<^verbatim>\<open>'priority'\<close>, \<^verbatim>\<open>TypeError\<close> for a value of another type; the lemma
  \<open>accumulate_external_refs_typed\<close> shows that neither is raised).
\<close>

definition enc_realpath :: "string option \<Rightarrow> pyval" where
  "enc_realpath r = (case r of None \<Rightarrow> PNone | Some p \<Rightarrow> PStr p)"

definition enc_libs :: "(string \<times> string option) list \<Rightarrow> (string \<times> pyval) list" where
  "enc_libs l = map (\<lambda>(soname, r). (soname, enc_realpath r)) l"

definition enc_policy_refs :: "policy_refs \<Rightarrow> pyval" where
  "enc_policy_refs p =
     PDict [(''libs'', PDict (enc_libs (ref_libs p))), (''priority'', PInt (ref_priority p))]"

definition enc_external_refs :: "external_refs \<Rightarrow> (string \<times> pyval) list" where
  "enc_external_refs r = map (\<lambda>(name, p). (name, enc_policy_refs p)) r"

fun dec_realpath :: "pyval \<Rightarrow> error + string option" where
  "dec_realpath (PStr p) = Inr (Some p)"
| "dec_realpath PNone = Inr None"
| "dec_realpath _ = Inl TypeError"

fun dec_libs :: "(string \<times> pyval) list \<Rightarrow> error + (string \<times> string option) list" where
  "dec_libs [] = Inr []"
| "dec_libs ((soname, v) # kvs) =
     (case dec_realpath v of
        Inl x \<Rightarrow> Inl x
      | Inr r \<Rightarrow> (case dec_libs kvs of Inl x \<Rightarrow> Inl x | Inr l \<Rightarrow> Inr ((soname, r) # l)))"

fun dec_policy_refs :: "pyval \<Rightarrow> error + policy_refs" where
  "dec_policy_refs (PDict d) =
     (case map_of d ''libs'' of
        None \<Rightarrow> Inl (KeyError ''libs'')
      | Some (PDict l) \<Rightarrow>
          (case dec_libs l of
             Inl x \<Rightarrow> Inl x
           | Inr libs \<Rightarrow>
               (case map_of d ''priority'' of
                  None \<Rightarrow> Inl (KeyError ''priority'')
                | Some (PInt n) \<Rightarrow> Inr \<lparr>ref_libs = libs, ref_priority = n\<rparr>
                | Some _ \<Rightarrow> Inl TypeError))
      | Some _ \<Rightarrow> Inl TypeError)"
| "dec_policy_refs _ = Inl TypeError"

fun dec_items :: "(string \<times> pyval) list \<Rightarrow> error + external_refs" where
  "dec_items [] = Inr []"
| "dec_items ((name, v) # kvs) =
     (case dec_policy_refs v of
        Inl x \<Rightarrow> Inl x
      | Inr p \<Rightarrow> (case dec_items kvs of Inl x \<Rightarrow> Inl x | Inr r \<Rightarrow> Inr ((name, p) # r)))"

fun dec_external_refs :: "pyval \<Rightarrow> error + external_refs" where
  "dec_external_refs (PDict d) = dec_items d"
| "dec_external_refs _ = Inl TypeError"

section \<open>\<^verbatim>\<open>get_external_libs\<close>, \<^verbatim>\<open>get_versioned_symbols\<close>, \<^verbatim>\<open>get_symbol_policies\<close>\<close>

text \<open>Lines 117-119, the inner loop: a real path that is \<^verbatim>\<open>None\<close> or empty is falsy;
  a real path already in \<^verbatim>\<open>result\<close> keeps the name it has.\<close>

definition add_external_libs ::
  "(string \<times> string option) list \<Rightarrow> (string \<times> string) list \<Rightarrow> (string \<times> string) list" where
  "add_external_libs libs result =
     fold (\<lambda>(libname, realpath) acc.
             case realpath of
               None \<Rightarrow> acc
             | Some rp \<Rightarrow>
                 if rp \<noteq> [] \<and> map_of acc rp = None then dict_set rp libname acc else acc)
       libs result"

text \<open>\<^verbatim>\<open>get_external_libs\<close>, lines 104-120: \<^verbatim>\<open>{realpath: soname}\<close>.\<close>

definition get_external_libs :: "external_refs \<Rightarrow> (string \<times> string) list" where
  "get_external_libs external_refs =
     fold (\<lambda>policy result.
             if ref_priority policy = 0 then result
             else add_external_libs (ref_libs policy) result)
       (map snd external_refs) []"

text \<open>The loop of lines 131-138 over what \<^verbatim>\<open>elf_file_filter(libs.keys())\<close> yields;
  \<^verbatim>\<open>result[libs[path]] = elf_versioned_symbols\<close> replaces an earlier entry of the same
  name.\<close>

fun versioned_symbols_loop ::
  "(string \<times> string) list \<Rightarrow> (string \<times> elf_file) list \<Rightarrow> (string \<times> vsyms) list \<Rightarrow>
     error + (string \<times> vsyms) list" where
  "versioned_symbols_loop libs [] result = Inr result"
| "versioned_symbols_loop libs ((path, elf) # rest) result =
     (let elf_versioned_symbols = add_versioned_symbols elf []
      in case dict_getitem libs path of
           Inl x \<Rightarrow> Inl x
         | Inr soname \<Rightarrow>
             versioned_symbols_loop libs rest (dict_set soname elf_versioned_symbols result))"

text \<open>\<^verbatim>\<open>get_versioned_symbols\<close>, lines 123-139: \<^verbatim>\<open>{soname: {depname: versions}}\<close>.\<close>

definition get_versioned_symbols ::
  "env \<Rightarrow> (string \<times> string) list \<Rightarrow> error + (string \<times> vsyms) list" where
  "get_versioned_symbols e libs = versioned_symbols_loop libs (elf_file_filter e (map fst libs)) []"

text \<open>Lines 158-164: the copy of the package's own symbols, with the symbols of every
  library of the policy that was scanned.\<close>

definition policy_symbols_of ::
  "vsyms \<Rightarrow> (string \<times> vsyms) list \<Rightarrow> policy_refs \<Rightarrow> vsyms" where
  "policy_symbols_of versioned_symbols external_versioned_symbols policy =
     fold (\<lambda>soname policy_symbols.
             case map_of external_versioned_symbols soname of
               None \<Rightarrow> policy_symbols
             | Some ext_symbols \<Rightarrow>
                 fold (\<lambda>k acc. vs_update k (vs_get ext_symbols k) acc)
                   (map fst ext_symbols) policy_symbols)
       (map fst (ref_libs policy)) versioned_symbols"

text \<open>\<^verbatim>\<open>get_symbol_policies\<close>, lines 142-167.\<close>

definition get_symbol_policies ::
  "env \<Rightarrow> vsyms \<Rightarrow> (string \<times> vsyms) list \<Rightarrow> external_refs \<Rightarrow> (int \<times> vsyms) list" where
  "get_symbol_policies e versioned_symbols external_versioned_symbols external_refs =
     fold (\<lambda>policy result.
             if ref_priority policy = 0 then result
             else (let policy_symbols =
                         policy_symbols_of versioned_symbols external_versioned_symbols policy
                   in result @ [(versioned_symbols_policy e policy_symbols, policy_symbols)]))
       (map snd external_refs) []"

section \<open>\<^verbatim>\<open>analyze_wheel_abi\<close>\<close>

text \<open>\<^verbatim>\<open>max(xs, key=key, default=default)\<close>: the first of the greatest elements, the
  default for no element.\<close>

definition py_max_key :: "('a \<Rightarrow> int) \<Rightarrow> 'a list \<Rightarrow> 'a \<Rightarrow> 'a" where
  "py_max_key key xs dflt =
     (case xs of
        [] \<Rightarrow> dflt
      | x # rest \<Rightarrow> fold (\<lambda>y best. if key best < key y then y else best) rest x)"

text \<open>Lines 171-175: every policy of the catalogue with no library.\<close>

definition initial_external_refs :: "env \<Rightarrow> pyval" where
  "initial_external_refs e =
     PDict (fold (\<lambda>p d. dict_set (policy_name p)
                          (PDict [(''libs'', PDict []), (''priority'', PInt (policy_priority p))]) d)
              (load_policies e) [])"

text \<open>Lines 180-181: \<^verbatim>\<open>for fn in elftree_by_fn.keys():
  update(external_refs, external_refs_by_fn[fn])\<close>.\<close>

fun accumulate_external_refs ::
  "pyval \<Rightarrow> string list \<Rightarrow> (string \<times> external_refs) list \<Rightarrow> error + pyval" where
  "accumulate_external_refs d [] by_fn = Inr d"
| "accumulate_external_refs d (fn # fns) by_fn =
     (case dict_getitem by_fn fn of
        Inl x \<Rightarrow> Inl x
      | Inr u \<Rightarrow>
          (case update d (enc_external_refs u) of
             Inl x \<Rightarrow> Inl x
           | Inr d' \<Rightarrow> accumulate_external_refs d' fns by_fn))"

text \<open>Lines 201-203.\<close>

definition ref_policy_of :: "env \<Rightarrow> external_refs \<Rightarrow> int" where
  "ref_policy_of e external_refs =
     py_max_key (\<lambda>n. n)
       (map ref_priority (filter (\<lambda>p. length (ref_libs p) = 0) (map snd external_refs)))
       (POLICY_PRIORITY_LOWEST e)"

text \<open>Lines 205-213.\<close>

definition flag_policy_of :: "env \<Rightarrow> bool \<Rightarrow> int" where
  "flag_policy_of e flag = (if flag then POLICY_PRIORITY_LOWEST e else POLICY_PRIORITY_HIGHEST e)"

text \<open>Lines 186-199: the pair \<^verbatim>\<open>(symbol_policy, versioned_symbols)\<close> that is kept.\<close>

definition symbol_policy_of ::
  "env \<Rightarrow> vsyms \<Rightarrow> (string \<times> vsyms) list \<Rightarrow> external_refs \<Rightarrow> int \<times> vsyms" where
  "symbol_policy_of e versioned_symbols external_versioned_symbols external_refs =
     (let symbol_policies =
            get_symbol_policies e versioned_symbols external_versioned_symbols external_refs;
          symbol_policy = versioned_symbols_policy e versioned_symbols
      in py_max_key fst symbol_policies (symbol_policy, versioned_symbols))"

text \<open>The local variables of \<^verbatim>\<open>analyze_wheel_abi\<close> at line 214, before the priorities
  are given their names.\<close>

record abi_priorities =
  p_external_refs :: external_refs
  p_versioned_symbols :: vsyms
  p_symbol_policy :: int
  p_ref_policy :: int
  p_ucs_policy :: int
  p_pyfpe_policy :: int

text \<open>Lines 180-213, from what \<^verbatim>\<open>get_wheel_elfdata\<close> returned.\<close>

definition analyze_priorities :: "env \<Rightarrow> elfdata \<Rightarrow> error + abi_priorities" where
  "analyze_priorities e data =
     (case accumulate_external_refs (initial_external_refs e)
             (map fst (d_full_elftree data)) (d_full_external_refs data) of
        Inl x \<Rightarrow> Inl x
      | Inr refs \<Rightarrow>
          (case dec_external_refs refs of
             Inl x \<Rightarrow> Inl x
           | Inr external_refs \<Rightarrow>
               (case get_versioned_symbols e (get_external_libs external_refs) of
                  Inl x \<Rightarrow> Inl x
                | Inr external_versioned_symbols \<Rightarrow>
                    (let (symbol_policy, versioned_symbols) =
                           symbol_policy_of e (d_versioned_symbols data)
                             external_versioned_symbols external_refs
                     in Inr \<lparr>p_external_refs = external_refs,
                             p_versioned_symbols = versioned_symbols,
                             p_symbol_policy = symbol_policy,
                             p_ref_policy = ref_policy_of e external_refs,
                             p_ucs_policy = flag_policy_of e (d_uses_ucs2_symbols data),
                             p_pyfpe_policy = flag_policy_of e (d_uses_PyFPE_jbuf data)\<rparr>))))"

record WheelAbIInfo =
  overall_tag :: "string option"
  info_external_refs :: external_refs
  ref_tag :: "string option"
  info_versioned_symbols :: vsyms
  sym_tag :: "string option"
  ucs_tag :: "string option"
  pyfpe_tag :: "string option"

text \<open>Lines 215-223.\<close>

definition name_priorities :: "env \<Rightarrow> abi_priorities \<Rightarrow> WheelAbIInfo" where
  "name_priorities e p =
     \<lparr>overall_tag =
        get_policy_name e
          (min (p_symbol_policy p)
             (min (p_ref_policy p) (min (p_ucs_policy p) (p_pyfpe_policy p)))),
      info_external_refs = p_external_refs p,
      ref_tag = get_policy_name e (p_ref_policy p),
      info_versioned_symbols = p_versioned_symbols p,
      sym_tag = get_policy_name e (p_symbol_policy p),
      ucs_tag = get_policy_name e (p_ucs_policy p),
      pyfpe_tag = get_policy_name e (p_pyfpe_policy p)\<rparr>"

text \<open>\<^verbatim>\<open>analyze_wheel_abi(wheel_fn)\<close>, lines 170-223, with the cache of
  \<^verbatim>\<open>get_wheel_elfdata\<close> passed in and out.\<close>

definition analyze_wheel_abi ::
  "env \<Rightarrow> (string \<Rightarrow> wheel) \<Rightarrow> (string \<times> elfdata) list \<Rightarrow> string \<Rightarrow>
     (error + WheelAbIInfo) \<times> (string \<times> elfdata) list" where
  "analyze_wheel_abi e fs cache wheel_fn =
     (case get_wheel_elfdata e fs cache wheel_fn of
        (Inl x, cache') \<Rightarrow> (Inl x, cache')
      | (Inr data, cache') \<Rightarrow>
          (case analyze_priorities e data of
             Inl x \<Rightarrow> (Inl x, cache')
           | Inr p \<Rightarrow> (Inr (name_priorities e p), cache')))"

section \<open>A small catalogue and small packages\<close>

text \<open>
  An environment to run the functions in: three policies, white lists by policy name,
  external references that keep the resolved libraries outside the white list (none for
  the policy of priority 0), a priority from the versions of the symbols, and one
  library on the system.
\<close>

definition ex_policies :: "policy list" where
  "ex_policies =
     [\<lparr>policy_name = ''linux'', policy_priority = 0\<rparr>,
      \<lparr>policy_name = ''manylinux1'', policy_priority = 100\<rparr>,
      \<lparr>policy_name = ''manylinux2010'', policy_priority = 90\<rparr>]"

definition ex_whitelist :: "string \<Rightarrow> string list" where
  "ex_whitelist name =
     (if name = ''manylinux1'' then [''libc.so.6'']
      else if name = ''manylinux2010'' then [''libc.so.6'', ''libm.so.6'']
      else [])"

definition ex_external_references :: "elftree \<Rightarrow> string \<Rightarrow> external_refs" where
  "ex_external_references tree path =
     map (\<lambda>p. (policy_name p,
               \<lparr>ref_libs =
                  (if policy_priority p = 0 then []
                   else filter (\<lambda>(soname, realpath). soname \<notin> set (ex_whitelist (policy_name p)))
                          (tree_libs tree)),
                ref_priority = policy_priority p\<rparr>))
       ex_policies"

definition ex_symbols_policy :: "vsyms \<Rightarrow> int" where
  "ex_symbols_policy vs =
     (if list_all (\<lambda>k. vs_get vs k \<subseteq> {''GLIBC_2.5''}) (map fst vs) then 100
      else if list_all (\<lambda>k. vs_get vs k \<subseteq> {''GLIBC_2.5'', ''GLIBC_2.12''}) (map fst vs) then 90
      else 0)"

definition ex_policy_name :: "int \<Rightarrow> string option" where
  "ex_policy_name n =
     (case filter (\<lambda>p. policy_priority p = n) ex_policies of
        [] \<Rightarrow> None
      | p # ps \<Rightarrow> Some (policy_name p))"

definition ex_elf :: "(string \<times> string) list \<Rightarrow> string list \<Rightarrow> string list \<Rightarrow> elf_file" where
  "ex_elf vs imported ucs2 =
     \<lparr>elf_versioned_symbols = vs, elf_imported_symbols = imported, elf_ucs2_symbols = ucs2\<rparr>"

definition ex_elf_at :: "string \<Rightarrow> elf_file option" where
  "ex_elf_at path =
     (if path = ''/usr/lib/libz.so.1.2.11'' then Some (ex_elf [(''libc.so.6'', ''GLIBC_2.12'')] [] [])
      else None)"

definition ex_env :: env where
  "ex_env =
     \<lparr>load_policies = ex_policies,
      lddtree_external_references = ex_external_references,
      versioned_symbols_policy = ex_symbols_policy,
      get_policy_name = ex_policy_name,
      POLICY_PRIORITY_LOWEST = 0,
      POLICY_PRIORITY_HIGHEST = 100,
      elf_at = ex_elf_at\<rparr>"

definition ex_ext :: wheel_file where
  "ex_ext =
     \<lparr>file_fn = ''pkg/_mod.so'',
      file_elf = ex_elf [(''libc.so.6'', ''GLIBC_2.5'')] [''PyInit__mod''] [],
      file_is_py_ext = True,
      file_py_ver = Some 3,
      file_elftree =
        \<lparr>tree_needed = [''libfoo.so'', ''libz.so.1'', ''libc.so.6''],
         tree_libs = [(''libfoo.so'', Some ''pkg/.libs/libfoo.so''),
                      (''libz.so.1'', Some ''/usr/lib/libz.so.1.2.11''),
                      (''libc.so.6'', Some ''/lib/libc.so.6'')]\<rparr>\<rparr>"

definition ex_wheel :: wheel where
  "ex_wheel = \<lparr>ctx_path = ''/tmp/w'', wheel_files = [ex_ext]\<rparr>"

text \<open>An extension module under \<^verbatim>\<open>purelib\<close>.\<close>

definition ex_purelib_wheel :: wheel where
  "ex_purelib_wheel =
     \<lparr>ctx_path = ''/tmp/w'',
      wheel_files = [ex_ext\<lparr>file_fn := ''pkg-1.0.data/purelib/pkg/_mod.so''\<rparr>]\<rparr>"

text \<open>The extension module with the library \<^verbatim>\<open>libfoo.so\<close> it needs inside the
  package.\<close>

definition ex_vendored_wheel :: wheel where
  "ex_vendored_wheel =
     \<lparr>ctx_path = ''/tmp/w'',
      wheel_files =
        [ex_ext,
         \<lparr>file_fn = ''pkg/.libs/libfoo.so'',
          file_elf = ex_elf [(''libm.so.6'', ''GLIBC_2.17'')] [] [],
          file_is_py_ext = False,
          file_py_ver = None,
          file_elftree =
            \<lparr>tree_needed = [''libm.so.6''],
             tree_libs = [(''libm.so.6'', Some ''/lib/libm.so.6'')]\<rparr>\<rparr>]\<rparr>"

text \<open>A package with one shared library that is not an extension module, is needed by
  no other object, and imports \<^verbatim>\<open>PyFPE_jbuf\<close>.\<close>

definition ex_helper_wheel :: wheel where
  "ex_helper_wheel =
     \<lparr>ctx_path = ''/tmp/w'',
      wheel_files =
        [\<lparr>file_fn = ''pkg/libhelper.so'',
          file_elf = ex_elf [(''libc.so.6'', ''GLIBC_2.5'')] [''PyFPE_jbuf'', ''malloc''] [],
          file_is_py_ext = False,
          file_py_ver = None,
          file_elftree =
            \<lparr>tree_needed = [''libc.so.6''],
             tree_libs = [(''libc.so.6'', Some ''/lib/libc.so.6'')]\<rparr>\<rparr>]\<rparr>"

text \<open>Two extension modules: one built for Python 2 with two narrow-unicode symbols
  and the import of \<^verbatim>\<open>PyFPE_jbuf\<close>, one built for Python 3.\<close>

definition ex_ucs2_wheel :: wheel where
  "ex_ucs2_wheel =
     \<lparr>ctx_path = ''/tmp/w'',
      wheel_files =
        [ex_ext,
         \<lparr>file_fn = ''pkg/_legacy.so'',
          file_elf =
            ex_elf [] [''PyFPE_jbuf'', ''PyUnicodeUCS2_FromString'', ''PyUnicodeUCS2_AsUTF8String'']
              [''PyUnicodeUCS2_FromString'', ''PyUnicodeUCS2_AsUTF8String''],
          file_is_py_ext = True,
          file_py_ver = Some 2,
          file_elftree = \<lparr>tree_needed = [], tree_libs = []\<rparr>\<rparr>]\<rparr>"

section \<open>Top-level objects, in the words of the spec\<close>

text \<open>The library names that any object of the package needs.\<close>

definition all_needed :: "wheel_file list \<Rightarrow> string set" where
  "all_needed files = set (concat (map (\<lambda>f. tree_needed (file_elftree f)) files))"

text \<open>The objects analyzed at top level: the extension modules, then the other objects
  whose base name no object needs.\<close>

definition top_level_files :: "wheel_file list \<Rightarrow> wheel_file list" where
  "top_level_files files =
     filter file_is_py_ext files @
     filter (\<lambda>f. \<not> file_is_py_ext f \<and> basename (file_fn f) \<notin> all_needed files) files"

text \<open>The declared names of the external libraries of one object's external
  references, over all policies.\<close>

definition external_deps :: "external_refs \<Rightarrow> string list" where
  "external_deps refs = concat (map (\<lambda>(name, p). map fst (ref_libs p)) refs)"

text \<open>The external dependencies reachable from the package: those of the dependency
  tree of any of its ELF files.\<close>

definition reachable_deps :: "env \<Rightarrow> wheel \<Rightarrow> string list" where
  "reachable_deps e w =
     concat (map (\<lambda>f. external_deps
                        (lddtree_external_references e (file_elftree f) (ctx_path w)))
               (wheel_files w))"

text \<open>How many top-level objects' external references hold a dependency.\<close>

definition visits :: "elfdata \<Rightarrow> string \<Rightarrow> nat" where
  "visits data dep =
     length (filter (\<lambda>(fn, refs). dep \<in> set (external_deps refs)) (d_full_external_refs data))"

definition visited_exactly_once :: "env \<Rightarrow> wheel \<Rightarrow> elfdata \<Rightarrow> bool" where
  "visited_exactly_once e w data = list_all (\<lambda>dep. visits data dep = 1) (reachable_deps e w)"

text \<open>Two extension modules that need the same external library.\<close>

definition ex_two_ext_wheel :: wheel where
  "ex_two_ext_wheel =
     \<lparr>ctx_path = ''/tmp/w'',
      wheel_files = [ex_ext, ex_ext\<lparr>file_fn := ''pkg/_other.so''\<rparr>]\<rparr>"

text \<open>Two libraries, neither an extension module, that need each other; one needs an
  external library.\<close>

definition ex_cycle_wheel :: wheel where
  "ex_cycle_wheel =
     \<lparr>ctx_path = ''/tmp/w'',
      wheel_files =
        [\<lparr>file_fn = ''pkg/liba.so'',
          file_elf = ex_elf [] [] [],
          file_is_py_ext = False,
          file_py_ver = None,
          file_elftree =
            \<lparr>tree_needed = [''libb.so'', ''libz.so.1''],
             tree_libs = [(''libz.so.1'', Some ''/usr/lib/libz.so.1.2.11'')]\<rparr>\<rparr>,
         \<lparr>file_fn = ''pkg/libb.so'',
          file_elf = ex_elf [] [] [],
          file_is_py_ext = False,
          file_py_ver = None,
          file_elftree = \<lparr>tree_needed = [''liba.so''], tree_libs = []\<rparr>\<rparr>]\<rparr>"

text \<open>The paths of the files still to be processed are distinct and are not yet keys of
  the dictionaries of the loop.\<close>

definition fresh_for :: "wheel_file list \<Rightarrow> elfdata \<Rightarrow> bool" where
  "fresh_for fs st \<longleftrightarrow>
     distinct (map file_fn fs) \<and>
     set (map file_fn fs) \<inter>
       (fst ` set (d_full_elftree st) \<union> fst ` set (d_nonpy_elftree st) \<union>
        fst ` set (d_full_external_refs st)) = {}"

section \<open>The merge of external references, at its type\<close>

text \<open>What \<^verbatim>\<open>update\<close> does to dictionaries of the type \<open>external_refs\<close>: the entries of
  \<open>u\<close> are written one by one, a library under its declared name.\<close>

definition merge_libs ::
  "(string \<times> string option) list \<Rightarrow> (string \<times> string option) list \<Rightarrow>
     (string \<times> string option) list" where
  "merge_libs d u = fold (\<lambda>(soname, r) acc. dict_set soname r acc) u d"

definition merge_policy_refs :: "policy_refs option \<Rightarrow> policy_refs \<Rightarrow> policy_refs" where
  "merge_policy_refs d pu =
     \<lparr>ref_libs = merge_libs (case d of None \<Rightarrow> [] | Some p \<Rightarrow> ref_libs p) (ref_libs pu),
      ref_priority = ref_priority pu\<rparr>"

definition merge_external_refs :: "external_refs \<Rightarrow> external_refs \<Rightarrow> external_refs" where
  "merge_external_refs d u =
     fold (\<lambda>(name, pu) acc. dict_set name (merge_policy_refs (map_of acc name) pu) acc) u d"

text \<open>The libraries of a policy, as a map from the declared name to the real path.\<close>

definition libs_of :: "external_refs \<Rightarrow> string \<Rightarrow> (string \<rightharpoonup> string option)" where
  "libs_of r name = (case map_of r name of None \<Rightarrow> Map.empty | Some p \<Rightarrow> map_of (ref_libs p))"

text \<open>The external references before any object is merged, lines 171-175.\<close>

definition initial_refs :: "env \<Rightarrow> external_refs" where
  "initial_refs e =
     fold (\<lambda>p d. dict_set (policy_name p) \<lparr>ref_libs = [], ref_priority = policy_priority p\<rparr> d)
       (load_policies e) []"

text \<open>Lines 180-181 at the type \<open>external_refs\<close>.\<close>

fun accumulate_refs ::
  "external_refs \<Rightarrow> string list \<Rightarrow> (string \<times> external_refs) list \<Rightarrow> error + external_refs" where
  "accumulate_refs d [] by_fn = Inr d"
| "accumulate_refs d (fn # fns) by_fn =
     (case dict_getitem by_fn fn of
        Inl x \<Rightarrow> Inl x
      | Inr u \<Rightarrow> accumulate_refs (merge_external_refs d u) fns by_fn)"

text \<open>Two extension modules whose trees resolve \<^verbatim>\<open>libz.so.1\<close> to different files; the
  second also reaches its file under the name \<^verbatim>\<open>libz.so\<close>.\<close>

definition ex_rpath_wheel :: wheel where
  "ex_rpath_wheel =
     \<lparr>ctx_path = ''/tmp/w'',
      wheel_files =
        [ex_ext,
         ex_ext\<lparr>file_fn := ''pkg/_other.so'',
                file_elftree :=
                  \<lparr>tree_needed = [''libz.so.1'', ''libz.so''],
                   tree_libs = [(''libz.so.1'', Some ''/opt/lib/libz.so.1.2.8''),
                                (''libz.so'', Some ''/opt/lib/libz.so.1.2.8'')]\<rparr>\<rparr>]\<rparr>"

section \<open>The external libraries across policies, in the words of the spec\<close>




text \<open>Two policies that hold the same declared name with different real paths, and the
  two files on the system.\<close>

definition ex_two_paths_refs :: external_refs where
  "ex_two_paths_refs =
     [(''linux'', \<lparr>ref_libs = [], ref_priority = 0\<rparr>),
      (''manylinux1'',
       \<lparr>ref_libs = [(''liba.so'', Some ''/x/liba.so'')], ref_priority = 100\<rparr>),
      (''manylinux2010'',
       \<lparr>ref_libs = [(''liba.so'', Some ''/y/liba.so'')], ref_priority = 90\<rparr>)]"

definition ex_two_paths_env :: env where
  "ex_two_paths_env =
     ex_env\<lparr>elf_at :=
       (\<lambda>path. if path = ''/x/liba.so'' then Some (ex_elf [(''libc.so.6'', ''GLIBC_2.5'')] [] [])
               else if path = ''/y/liba.so''
                 then Some (ex_elf [(''libc.so.6'', ''GLIBC_2.17'')] [] [])
               else None)\<rparr>"

section \<open>Supersets of versioned symbols, in the words of the spec\<close>

text \<open>One versioned-symbol set requires at least what another requires.\<close>

definition vs_le :: "vsyms \<Rightarrow> vsyms \<Rightarrow> bool" where
  "vs_le a b \<longleftrightarrow> (\<forall>k. vs_get a k \<subseteq> vs_get b k)"

text \<open>The two ways in which a priority-from-symbols function can follow the
  requirements: a superset of requirements never yields a lower priority, or never a
  higher one.\<close>

definition superset_never_lower :: "(vsyms \<Rightarrow> int) \<Rightarrow> bool" where
  "superset_never_lower f \<longleftrightarrow> (\<forall>a b. vs_le a b \<longrightarrow> f a \<le> f b)"

definition superset_never_higher :: "(vsyms \<Rightarrow> int) \<Rightarrow> bool" where
  "superset_never_higher f \<longleftrightarrow> (\<forall>a b. vs_le a b \<longrightarrow> f b \<le> f a)"

text \<open>The same file with more versioned symbols, and the same package with more
  versioned symbols in its objects.\<close>

definition enlarged_file :: "wheel_file \<Rightarrow> wheel_file \<Rightarrow> bool" where
  "enlarged_file f f' \<longleftrightarrow>
     file_fn f' = file_fn f \<and> file_is_py_ext f' = file_is_py_ext f \<and>
     file_py_ver f' = file_py_ver f \<and> file_elftree f' = file_elftree f \<and>
     elf_imported_symbols (file_elf f') = elf_imported_symbols (file_elf f) \<and>
     elf_ucs2_symbols (file_elf f') = elf_ucs2_symbols (file_elf f) \<and>
     set (elf_versioned_symbols (file_elf f)) \<subseteq> set (elf_versioned_symbols (file_elf f'))"

definition enlarged :: "wheel \<Rightarrow> wheel \<Rightarrow> bool" where
  "enlarged w w' \<longleftrightarrow>
     ctx_path w' = ctx_path w \<and> list_all2 enlarged_file (wheel_files w) (wheel_files w')"

text \<open>The states of the loop of \<^verbatim>\<open>get_wheel_elfdata\<close> on a package and on an enlarged
  one.\<close>

definition enlarged_data :: "elfdata \<Rightarrow> elfdata \<Rightarrow> bool" where
  "enlarged_data st st' \<longleftrightarrow>
     d_full_elftree st' = d_full_elftree st \<and> d_nonpy_elftree st' = d_nonpy_elftree st \<and>
     d_full_external_refs st' = d_full_external_refs st \<and>
     d_uses_ucs2_symbols st' = d_uses_ucs2_symbols st \<and>
     d_uses_PyFPE_jbuf st' = d_uses_PyFPE_jbuf st \<and>
     vs_le (d_versioned_symbols st) (d_versioned_symbols st')"

text \<open>An extension module that needs the C library only, and the same module with one
  more versioned symbol.\<close>

definition ex_clean_wheel :: wheel where
  "ex_clean_wheel =
     \<lparr>ctx_path = ''/tmp/w'',
      wheel_files =
        [ex_ext\<lparr>file_elftree :=
                  \<lparr>tree_needed = [''libc.so.6''],
                   tree_libs = [(''libc.so.6'', Some ''/lib/libc.so.6'')]\<rparr>\<rparr>]\<rparr>"

definition ex_enlarged_wheel :: wheel where
  "ex_enlarged_wheel =
     \<lparr>ctx_path = ''/tmp/w'',
      wheel_files =
        [ex_ext\<lparr>file_elf :=
                  ex_elf [(''libc.so.6'', ''GLIBC_2.5''), (''libc.so.6'', ''GLIBC_2.17'')]
                    [''PyInit__mod''] [],
                file_elftree :=
                  \<lparr>tree_needed = [''libc.so.6''],
                   tree_libs = [(''libc.so.6'', Some ''/lib/libc.so.6'')]\<rparr>\<rparr>]\<rparr>"

text \<open>A priority-from-symbols function for which a superset never yields a lower
  priority: 0 when the C library is required at \<^verbatim>\<open>GLIBC_2.5\<close> at most, 100
  otherwise.\<close>

definition ex_count_env :: env where
  "ex_count_env =
     ex_env\<lparr>versioned_symbols_policy :=
       (\<lambda>vs. if vs_get vs ''libc.so.6'' \<subseteq> {''GLIBC_2.5''} then 0 else 100)\<rparr>"

section \<open>The position of a cache entry\<close>

text \<open>The entry for \<open>k\<close> holds \<open>v\<close> and at most \<open>i\<close> entries of the cache were used more
  recently.\<close>

definition cached_within :: "nat \<Rightarrow> 'k \<Rightarrow> 'v \<Rightarrow> ('k \<times> 'v) list \<Rightarrow> bool" where
  "cached_within i k v cache \<longleftrightarrow>
     (\<exists>pre post. cache = pre @ (k, v) # post \<and> k \<notin> fst ` set pre \<and> length pre \<le> i)"

section \<open>Evaluation\<close>

lemmas ex_defs =
  ex_clean_wheel_def ex_enlarged_wheel_def ex_count_env_def ex_two_paths_env_def
  ex_two_paths_refs_def ex_rpath_wheel_def ex_two_ext_wheel_def ex_cycle_wheel_def
  ex_ucs2_wheel_def ex_helper_wheel_def ex_env_def ex_wheel_def ex_ext_def ex_elf_at_def
  ex_elf_def ex_policy_name_def ex_symbols_policy_def ex_external_references_def
  ex_whitelist_def ex_policies_def ex_purelib_wheel_def ex_vendored_wheel_def

lemmas elfdata_defs = get_wheel_elfdata_def lru_cache_call_def
  get_wheel_elfdata_wrapped_def empty_elfdata_def process_elf_def
  promote_nonpy_def needed_libs_def basename_def add_versioned_symbols_def
  elf_find_versioned_symbols_def elf_find_ucs2_symbols_def vs_add_def vs_get_def
  elf_references_PyFPE_jbuf_def Let_def

lemmas analyze_defs = analyze_wheel_abi_def
  analyze_priorities_def initial_external_refs_def dict_getitem_def enc_external_refs_def
  enc_policy_refs_def enc_libs_def enc_realpath_def get_external_libs_def add_external_libs_def
  get_versioned_symbols_def elf_file_filter_def symbol_policy_of_def get_symbol_policies_def
  policy_symbols_of_def vs_update_def py_max_key_def ref_policy_of_def flag_policy_of_def
  name_priorities_def

section \<open>Dictionaries\<close>

lemma map_of_dict_set: "map_of (dict_set k v d) = (map_of d)(k \<mapsto> v)"
  by (induction d) (auto simp: fun_eq_iff)

lemma keys_dict_set: "fst ` set (dict_set k v d) = insert k (fst ` set d)"
proof (induction d)
  case Nil
  then show ?case by simp
next
  case (Cons p d)
  then show ?case by (cases p) (simp add: insert_commute)
qed

lemma dict_set_new: "k \<notin> fst ` set d \<Longrightarrow> dict_set k v d = d @ [(k, v)]"
  by (induction d) auto

lemma vs_get_vs_add:
  "vs_get (vs_add k v d) k' = (if k' = k then insert v (vs_get d k) else vs_get d k')"
  by (simp add: vs_get_def vs_add_def map_of_dict_set)

lemma vs_get_fold_vs_add:
  "vs_get (fold (\<lambda>(key, val) acc. vs_add key val acc) xs d) k =
     vs_get d k \<union> {v. (k, v) \<in> set xs}"
  by (induction xs arbitrary: d) (auto simp: vs_get_vs_add split: if_splits)

lemma vs_get_add_versioned_symbols:
  "vs_get (add_versioned_symbols elf d) k =
     vs_get d k \<union> {v. (k, v) \<in> set (elf_find_versioned_symbols elf)}"
  by (simp add: add_versioned_symbols_def vs_get_fold_vs_add)

section \<open>The package's own versioned symbols\<close>

lemma versioned_symbols_process_elf:
  "d_versioned_symbols (process_elf e path f st) =
     add_versioned_symbols (file_elf f) (d_versioned_symbols st)"
  by (simp add: process_elf_def Let_def)

lemma elf_loop_Cons_Inr:
  assumes "elf_loop e path (f # fs) st = Inr st'"
  shows "''purelib'' \<notin> set (split_sep CHR ''/'' (file_fn f))"
    and "elf_loop e path fs (process_elf e path f st) = Inr st'"
  using assms by (auto simp: Let_def split: if_splits)

lemma versioned_symbols_elf_loop:
  "elf_loop e path fs st = Inr st' \<Longrightarrow>
   vs_get (d_versioned_symbols st') k =
     vs_get (d_versioned_symbols st) k \<union>
     {v. \<exists>f \<in> set fs. (k, v) \<in> set (elf_find_versioned_symbols (file_elf f))}"
proof (induction fs arbitrary: st)
  case Nil
  then show ?case by simp
next
  case (Cons f fs)
  show ?case
    using Cons.IH [OF elf_loop_Cons_Inr(2) [OF Cons.prems]]
    by (auto simp: versioned_symbols_process_elf vs_get_add_versioned_symbols)
qed

lemma versioned_symbols_promote_fold:
  "d_versioned_symbols
     (fold (\<lambda>(fn, tree) acc.
              if P fn then
                acc\<lparr>d_full_elftree := dict_set fn tree (d_full_elftree acc),
                    d_full_external_refs := dict_set fn (g tree) (d_full_external_refs acc)\<rparr>
              else acc) xs st) = d_versioned_symbols st"
  by (induction xs arbitrary: st) auto

lemma versioned_symbols_promote_nonpy:
  "d_versioned_symbols (promote_nonpy e path st) = d_versioned_symbols st"
  unfolding promote_nonpy_def Let_def by (rule versioned_symbols_promote_fold)

lemma get_wheel_elfdata_wrapped_Inr:
  assumes "get_wheel_elfdata_wrapped e w = Inr data"
  obtains st where "elf_loop e (ctx_path w) (wheel_files w) empty_elfdata = Inr st"
    and "data = promote_nonpy e (ctx_path w) st"
  using assms by (auto simp: get_wheel_elfdata_wrapped_def split: sum.splits)

text \<open>
  C10. The package's own versioned-symbol set holds, under every dependency name, exactly
  the version strings that some ELF file of the package references for it: every file
  contributes, whether it is an extension module, a library promoted to top-level
  analysis, or a library that another object needs and that is left out of it.
\<close>

theorem own_symbols_cover_every_elf:
  assumes "get_wheel_elfdata_wrapped e w = Inr data"
  shows "vs_get (d_versioned_symbols data) k =
           {v. \<exists>f \<in> set (wheel_files w).
                 (k, v) \<in> set (elf_find_versioned_symbols (file_elf f))}"
proof -
  from assms obtain st where
    loop: "elf_loop e (ctx_path w) (wheel_files w) empty_elfdata = Inr st"
    and data: "data = promote_nonpy e (ctx_path w) st"
    by (rule get_wheel_elfdata_wrapped_Inr)
  have "vs_get (d_versioned_symbols empty_elfdata) k = {}"
    by (simp add: empty_elfdata_def vs_get_def)
  with versioned_symbols_elf_loop [OF loop, of k] show ?thesis
    by (simp add: data versioned_symbols_promote_nonpy)
qed

theorem own_symbols_cover_every_elf_witness:
  "\<exists>data. get_wheel_elfdata_wrapped ex_env ex_vendored_wheel = Inr data \<and>
          ''pkg/.libs/libfoo.so'' \<notin> fst ` set (d_full_elftree data) \<and>
          vs_get (d_versioned_symbols data) ''libm.so.6'' = {''GLIBC_2.17''}"
proof -
  have "\<exists>data. get_wheel_elfdata_wrapped ex_env ex_vendored_wheel = Inr data \<and>
          ''pkg/.libs/libfoo.so'' \<notin> fst ` set (d_full_elftree data)"
    by (simp add: ex_defs elfdata_defs)
  then obtain data where d: "get_wheel_elfdata_wrapped ex_env ex_vendored_wheel = Inr data"
    and nt: "''pkg/.libs/libfoo.so'' \<notin> fst ` set (d_full_elftree data)"
    by blast
  have "vs_get (d_versioned_symbols data) ''libm.so.6'' = {''GLIBC_2.17''}"
    unfolding own_symbols_cover_every_elf [OF d, of "''libm.so.6''"]
    by (auto simp: ex_defs elf_find_versioned_symbols_def)
  with d nt show ?thesis by blast
qed

section \<open>A shared library under purelib\<close>

lemma elf_loop_purelib:
  assumes "\<exists>f \<in> set fs. ''purelib'' \<in> set (split_sep CHR ''/'' (file_fn f))"
  shows "\<exists>f \<in> set fs. ''purelib'' \<in> set (split_sep CHR ''/'' (file_fn f)) \<and>
           elf_loop e path fs st = Inl (InvalidWheel (last (split_sep CHR ''/'' (file_fn f))))"
  using assms
proof (induction fs arbitrary: st)
  case Nil
  then show ?case by simp
next
  case (Cons f fs)
  show ?case
  proof (cases "''purelib'' \<in> set (split_sep CHR ''/'' (file_fn f))")
    case True
    then show ?thesis by (simp add: Let_def)
  next
    case False
    with Cons.prems have "\<exists>g \<in> set fs. ''purelib'' \<in> set (split_sep CHR ''/'' (file_fn g))"
      by auto
    from Cons.IH [OF this, of "process_elf e path f st"] False show ?thesis
      by (auto simp: Let_def)
  qed
qed

text \<open>
  C7. When an ELF file of the package has a path component \<^verbatim>\<open>purelib\<close>, the body of
  \<^verbatim>\<open>get_wheel_elfdata\<close> raises the \<^verbatim>\<open>RuntimeError\<close> of lines 50-55 for such a file,
  with the file name in the message. So does \<^verbatim>\<open>analyze_wheel_abi\<close>, provided that
  what the cache holds for the path, if anything, is the result for the content the
  package has now: no verdict is returned and nothing is stored in the cache.
\<close>

theorem purelib_aborts:
  assumes "\<exists>f \<in> set (wheel_files (fs wheel_fn)).
             ''purelib'' \<in> set (split_sep CHR ''/'' (file_fn f))"
    and "\<forall>data. map_of cache wheel_fn = Some data \<longrightarrow>
           get_wheel_elfdata_wrapped e (fs wheel_fn) = Inr data"
  shows "\<exists>f \<in> set (wheel_files (fs wheel_fn)).
           ''purelib'' \<in> set (split_sep CHR ''/'' (file_fn f)) \<and>
           get_wheel_elfdata_wrapped e (fs wheel_fn) =
             Inl (InvalidWheel (last (split_sep CHR ''/'' (file_fn f)))) \<and>
           analyze_wheel_abi e fs cache wheel_fn =
             (Inl (InvalidWheel (last (split_sep CHR ''/'' (file_fn f)))), cache)"
proof -
  from elf_loop_purelib [OF assms(1), of e "ctx_path (fs wheel_fn)" empty_elfdata]
  obtain f where f: "f \<in> set (wheel_files (fs wheel_fn))"
      "''purelib'' \<in> set (split_sep CHR ''/'' (file_fn f))"
    and loop: "elf_loop e (ctx_path (fs wheel_fn)) (wheel_files (fs wheel_fn)) empty_elfdata =
      Inl (InvalidWheel (last (split_sep CHR ''/'' (file_fn f))))"
    by blast
  from loop have w: "get_wheel_elfdata_wrapped e (fs wheel_fn) =
      Inl (InvalidWheel (last (split_sep CHR ''/'' (file_fn f))))"
    by (simp add: get_wheel_elfdata_wrapped_def)
  have miss: "map_of cache wheel_fn = None"
  proof (cases "map_of cache wheel_fn")
    case None
    then show ?thesis .
  next
    case (Some data)
    with assms(2) have "get_wheel_elfdata_wrapped e (fs wheel_fn) = Inr data" by simp
    with w show ?thesis by simp
  qed
  with w have "analyze_wheel_abi e fs cache wheel_fn =
      (Inl (InvalidWheel (last (split_sep CHR ''/'' (file_fn f)))), cache)"
    by (simp add: analyze_wheel_abi_def get_wheel_elfdata_def lru_cache_call_def)
  with f w show ?thesis by blast
qed

theorem purelib_aborts_witness:
  "analyze_wheel_abi ex_env (\<lambda>fn. ex_purelib_wheel) [] ''pkg-1.0-cp36-linux_x86_64.whl'' =
     (Inl (InvalidWheel ''_mod.so''), [])"
proof -
  have a: "\<exists>f \<in> set (wheel_files ((\<lambda>fn. ex_purelib_wheel) ''pkg-1.0-cp36-linux_x86_64.whl'')).
             ''purelib'' \<in> set (split_sep CHR ''/'' (file_fn f))"
    by (simp add: ex_defs)
  have b: "\<forall>data. map_of ([] :: (string \<times> elfdata) list) ''pkg-1.0-cp36-linux_x86_64.whl'' =
             Some data \<longrightarrow>
           get_wheel_elfdata_wrapped ex_env
             ((\<lambda>fn. ex_purelib_wheel) ''pkg-1.0-cp36-linux_x86_64.whl'') = Inr data"
    by simp
  from purelib_aborts [OF a b] show ?thesis
    by (simp add: ex_defs)
qed

section \<open>The overall tag\<close>

text \<open>
  C1. Whenever \<^verbatim>\<open>analyze_wheel_abi\<close> returns, the four sub-tags are the names of the
  symbol-version, reference-whitelist, legacy-unicode and
  floating-point-exception-buffer priorities, the overall tag is the name of the least
  of these four priorities, and that priority is at most each of the four.
\<close>

theorem overall_tag_is_minimum:
  assumes "analyze_wheel_abi e fs cache wheel_fn = (Inr info, cache')"
  shows "\<exists>data p.
           get_wheel_elfdata e fs cache wheel_fn = (Inr data, cache') \<and>
           analyze_priorities e data = Inr p \<and>
           sym_tag info = get_policy_name e (p_symbol_policy p) \<and>
           ref_tag info = get_policy_name e (p_ref_policy p) \<and>
           ucs_tag info = get_policy_name e (p_ucs_policy p) \<and>
           pyfpe_tag info = get_policy_name e (p_pyfpe_policy p) \<and>
           overall_tag info =
             get_policy_name e
               (Min {p_symbol_policy p, p_ref_policy p, p_ucs_policy p, p_pyfpe_policy p}) \<and>
           Min {p_symbol_policy p, p_ref_policy p, p_ucs_policy p, p_pyfpe_policy p}
             \<le> p_symbol_policy p \<and>
           Min {p_symbol_policy p, p_ref_policy p, p_ucs_policy p, p_pyfpe_policy p}
             \<le> p_ref_policy p \<and>
           Min {p_symbol_policy p, p_ref_policy p, p_ucs_policy p, p_pyfpe_policy p}
             \<le> p_ucs_policy p \<and>
           Min {p_symbol_policy p, p_ref_policy p, p_ucs_policy p, p_pyfpe_policy p}
             \<le> p_pyfpe_policy p"
proof -
  from assms obtain data p where
    d: "get_wheel_elfdata e fs cache wheel_fn = (Inr data, cache')"
    and p: "analyze_priorities e data = Inr p"
    and i: "info = name_priorities e p"
    by (auto simp: analyze_wheel_abi_def split: prod.splits sum.splits)
  have m: "Min {p_symbol_policy p, p_ref_policy p, p_ucs_policy p, p_pyfpe_policy p} =
      min (p_symbol_policy p) (min (p_ref_policy p) (min (p_ucs_policy p) (p_pyfpe_policy p)))"
    by simp
  have tags: "sym_tag info = get_policy_name e (p_symbol_policy p)"
    "ref_tag info = get_policy_name e (p_ref_policy p)"
    "ucs_tag info = get_policy_name e (p_ucs_policy p)"
    "pyfpe_tag info = get_policy_name e (p_pyfpe_policy p)"
    "overall_tag info = get_policy_name e
       (Min {p_symbol_policy p, p_ref_policy p, p_ucs_policy p, p_pyfpe_policy p})"
    unfolding m by (simp_all add: i name_priorities_def)
  have le: "Min {p_symbol_policy p, p_ref_policy p, p_ucs_policy p, p_pyfpe_policy p}
      \<le> p_symbol_policy p"
    "Min {p_symbol_policy p, p_ref_policy p, p_ucs_policy p, p_pyfpe_policy p}
      \<le> p_ref_policy p"
    "Min {p_symbol_policy p, p_ref_policy p, p_ucs_policy p, p_pyfpe_policy p}
      \<le> p_ucs_policy p"
    "Min {p_symbol_policy p, p_ref_policy p, p_ucs_policy p, p_pyfpe_policy p}
      \<le> p_pyfpe_policy p"
    by simp_all
  from d p tags le show ?thesis by blast
qed

theorem overall_tag_is_minimum_witness:
  "\<exists>info cache' (p :: abi_priorities).
     analyze_wheel_abi ex_env (\<lambda>fn. ex_wheel) [] ''w.whl'' = (Inr info, cache') \<and>
     sym_tag info = Some ''manylinux2010'' \<and> ref_tag info = Some ''linux'' \<and>
     ucs_tag info = Some ''manylinux1'' \<and> pyfpe_tag info = Some ''manylinux1'' \<and>
     overall_tag info = Some ''linux'' \<and>
     overall_tag info =
       get_policy_name ex_env
         (Min {p_symbol_policy p, p_ref_policy p, p_ucs_policy p, p_pyfpe_policy p})"
proof -
  have "\<exists>info cache'.
     analyze_wheel_abi ex_env (\<lambda>fn. ex_wheel) [] ''w.whl'' = (Inr info, cache') \<and>
     sym_tag info = Some ''manylinux2010'' \<and> ref_tag info = Some ''linux'' \<and>
     ucs_tag info = Some ''manylinux1'' \<and> pyfpe_tag info = Some ''manylinux1'' \<and>
     overall_tag info = Some ''linux''"
    by (simp add: ex_defs elfdata_defs analyze_defs)
  then obtain info cache' where
    a: "analyze_wheel_abi ex_env (\<lambda>fn. ex_wheel) [] ''w.whl'' = (Inr info, cache')"
    and t: "sym_tag info = Some ''manylinux2010''" "ref_tag info = Some ''linux''"
      "ucs_tag info = Some ''manylinux1''" "pyfpe_tag info = Some ''manylinux1''"
      "overall_tag info = Some ''linux''"
    by blast
  have "\<exists>p :: abi_priorities. overall_tag info = get_policy_name ex_env
         (Min {p_symbol_policy p, p_ref_policy p, p_ucs_policy p, p_pyfpe_policy p})"
    using overall_tag_is_minimum [OF a] by (elim exE conjE) (rule exI, assumption)
  then obtain p :: abi_priorities where
    "overall_tag info = get_policy_name ex_env
         (Min {p_symbol_policy p, p_ref_policy p, p_ucs_policy p, p_pyfpe_policy p})" ..
  with a t show ?thesis by (intro exI conjI)
qed

section \<open>The cache of \<^verbatim>\<open>get_wheel_elfdata\<close>\<close>

lemma filter_absent_key:
  "map_of cache k = None \<Longrightarrow> filter (\<lambda>(k', v'). k' \<noteq> k) cache = cache"
  by (induction cache) (auto split: if_splits)

lemma map_of_take_None: "map_of cache k = None \<Longrightarrow> map_of (take n cache) k = None"
  by (induction cache arbitrary: n) (auto simp: take_Cons split: nat.splits if_splits)

lemma map_of_filter_other: "map_of (filter (\<lambda>(k', v'). k' \<noteq> k) cache) k = None"
  by (induction cache) auto

lemma cached_within_map_of:
  assumes "cached_within i k v cache"
  shows "map_of cache k = Some v"
proof -
  from assms obtain pre post where
    c: "cache = pre @ (k, v) # post" and nk: "k \<notin> fst ` set pre"
    by (auto simp: cached_within_def)
  from nk have "map_of pre k = None" by (simp add: map_of_eq_None_iff)
  then show ?thesis by (simp add: c map_of_append map_add_def)
qed

lemma map_of_cached_within: "map_of cache k = Some v \<Longrightarrow> \<exists>i. cached_within i k v cache"
proof (induction cache)
  case Nil
  then show ?case by simp
next
  case (Cons x cache)
  obtain k' v' where x: "x = (k', v')" by (cases x)
  show ?case
  proof (cases "k' = k")
    case True
    with Cons.prems have "v' = v" by (simp add: x)
    then have "cached_within 0 k v (x # cache)"
      unfolding cached_within_def x True by (intro exI [of _ "[]"] exI [of _ cache]) simp
    then show ?thesis ..
  next
    case False
    with Cons.prems have "map_of cache k = Some v" by (simp add: x)
    from Cons.IH [OF this] obtain i pre post where
      "cache = pre @ (k, v) # post" "k \<notin> fst ` set pre" "length pre \<le> i"
      by (auto simp: cached_within_def)
    with False have "cached_within (Suc i) k v (x # cache)"
      unfolding cached_within_def x
      by (intro exI [of _ "(k', v') # pre"] exI [of _ post]) auto
    then show ?thesis ..
  qed
qed

lemma lru_hit:
  "map_of cache k = Some v \<Longrightarrow>
   lru_cache_call n f cache k = (Inr v, (k, v) # filter (\<lambda>(k', v'). k' \<noteq> k) cache)"
  by (simp add: lru_cache_call_def)

lemma lru_step_keeps:
  assumes "cached_within i k v cache" and "i < 127"
  shows "cached_within (Suc i) k v (snd (lru_cache_call 128 f cache k'))"
proof -
  from assms(1) obtain pre post where
    c: "cache = pre @ (k, v) # post" and nk: "k \<notin> fst ` set pre" and len: "length pre \<le> i"
    by (auto simp: cached_within_def)
  show ?thesis
  proof (cases "map_of cache k'")
    case (Some v')
    let ?P = "\<lambda>(a, b). a \<noteq> k'"
    show ?thesis
    proof (cases "k' = k")
      case True
      have "snd (lru_cache_call 128 f cache k') = [] @ (k, v) # filter ?P cache"
        using Some cached_within_map_of [OF assms(1)] by (simp add: lru_hit True)
      then show ?thesis unfolding cached_within_def by (intro exI) auto
    next
      case False
      have "snd (lru_cache_call 128 f cache k') =
          ((k', v') # filter ?P pre) @ (k, v) # filter ?P post"
        using Some False by (simp add: lru_hit c)
      moreover have "k \<notin> fst ` set ((k', v') # filter ?P pre)"
        using nk False by auto
      moreover have "length ((k', v') # filter ?P pre) \<le> Suc i"
        using len by (simp add: le_trans [OF length_filter_le])
      ultimately show ?thesis unfolding cached_within_def by blast
    qed
  next
    case None
    show ?thesis
    proof (cases "f k'")
      case (Inl x)
      then have "snd (lru_cache_call 128 f cache k') = cache"
        by (simp add: lru_cache_call_def None)
      with assms(1) have "cached_within i k v (snd (lru_cache_call 128 f cache k'))" by simp
      then show ?thesis unfolding cached_within_def by (meson le_SucI)
    next
      case (Inr v')
      from None cached_within_map_of [OF assms(1)] have ne: "k' \<noteq> k" by auto
      from len assms(2) have l: "length pre < 127" by simp
      have "take 127 cache = pre @ (k, v) # take (126 - length pre) post"
        using l by (simp add: c take_Cons')
      then have "snd (lru_cache_call 128 f cache k') =
          ((k', v') # pre) @ (k, v) # take (126 - length pre) post"
        by (simp add: lru_cache_call_def None Inr)
      moreover have "k \<notin> fst ` set ((k', v') # pre)" using nk ne by auto
      moreover have "length ((k', v') # pre) \<le> Suc i" using len by simp
      ultimately show ?thesis unfolding cached_within_def by blast
    qed
  qed
qed

lemma run_calls_keeps:
  assumes "cached_within i k v cache" and "i + length calls < 128"
  shows "cached_within (i + length calls) k v (run_calls e calls cache)"
  using assms
proof (induction calls arbitrary: i cache)
  case Nil
  then show ?case by (simp add: run_calls_def)
next
  case (Cons c calls)
  obtain fs fn where c: "c = (fs, fn)" by (cases c)
  from Cons.prems(2) have i: "i < 127" and rest: "Suc i + length calls < 128" by simp_all
  have "cached_within (Suc i) k v (snd (get_wheel_elfdata e fs cache fn))"
    unfolding get_wheel_elfdata_def by (rule lru_step_keeps [OF Cons.prems(1) i])
  from Cons.IH [OF this rest] show ?case by (simp add: run_calls_def c)
qed


lemma lru_evicts_oldest:
  assumes "cache = pre @ [(k, v)]" and "length pre = 127" and "k \<notin> fst ` set pre"
    and "map_of cache k' = None" and "f k' = Inr v'"
  shows "map_of (snd (lru_cache_call 128 f cache k')) k = None"
proof -
  from assms(1,4) have ne: "k' \<noteq> k" by (auto simp: map_of_eq_None_iff)
  have "snd (lru_cache_call 128 f cache k') = take 128 ((k', v') # cache)"
    by (simp add: lru_cache_call_def assms(4,5))
  also have "\<dots> = (k', v') # pre"
    using assms(2) by (simp add: assms(1))
  finally show ?thesis
    using ne assms(3) by (simp add: map_of_eq_None_iff)
qed

text \<open>
  C9, as the code has it. The cache is keyed by the path alone and keeps the 128 most
  recently used paths. After a call that returned, a call for the same path returns the
  same result, whatever the content of the package is by then (\<open>fs'\<close> is any content):
  at once, leaving the cache as it is, and also after any sequence \<open>calls\<close> of fewer than
  128 other calls, for any paths and any contents. The first call returned the stored
  result when the path was in the cache, and the analysis of the content current at that
  call when it was not. In general a call whose path is in the cache returns the stored
  result, and a call whose path is not in the cache returns what the analysis of the
  content current at that call gives.
\<close>

theorem memo_keyed_by_path_only:
  assumes "get_wheel_elfdata e fs cache wheel_fn = (Inr data, cache')"
    and "length calls < 128"
  shows "get_wheel_elfdata e fs' cache' wheel_fn = (Inr data, cache') \<and>
         fst (get_wheel_elfdata e fs' (run_calls e calls cache') wheel_fn) = Inr data \<and>
         (case map_of cache wheel_fn of
            Some v \<Rightarrow> data = v
          | None \<Rightarrow> get_wheel_elfdata_wrapped e (fs wheel_fn) = Inr data) \<and>
         (\<forall>c v. map_of c wheel_fn = Some v \<longrightarrow>
            fst (get_wheel_elfdata e fs' c wheel_fn) = Inr v) \<and>
         (\<forall>c. map_of c wheel_fn = None \<longrightarrow>
            fst (get_wheel_elfdata e fs' c wheel_fn) = get_wheel_elfdata_wrapped e (fs' wheel_fn))"
proof -
  have hit: "fst (get_wheel_elfdata e fs' c wheel_fn) = Inr v"
    if "map_of c wheel_fn = Some v" for c v
    using that by (simp add: get_wheel_elfdata_def lru_cache_call_def)
  have miss: "fst (get_wheel_elfdata e fs' c wheel_fn) = get_wheel_elfdata_wrapped e (fs' wheel_fn)"
    if "map_of c wheel_fn = None" for c
    using that by (simp add: get_wheel_elfdata_def lru_cache_call_def split: sum.splits)
  have first: "(\<exists>rest. cache' = (wheel_fn, data) # rest \<and>
        filter (\<lambda>(k', v'). k' \<noteq> wheel_fn) rest = rest) \<and>
      (case map_of cache wheel_fn of
         Some v \<Rightarrow> data = v
       | None \<Rightarrow> get_wheel_elfdata_wrapped e (fs wheel_fn) = Inr data)"
  proof (cases "map_of cache wheel_fn")
    case None
    with assms(1) have w: "get_wheel_elfdata_wrapped e (fs wheel_fn) = Inr data"
      and c: "cache' = take 128 ((wheel_fn, data) # cache)"
      by (auto simp: get_wheel_elfdata_def lru_cache_call_def split: sum.splits)
    from c have c': "cache' = (wheel_fn, data) # take 127 cache" by simp
    have "filter (\<lambda>(k', v'). k' \<noteq> wheel_fn) (take 127 cache) = take 127 cache"
      by (rule filter_absent_key) (rule map_of_take_None [OF None])
    with c' w None show ?thesis by simp
  next
    case (Some v)
    with assms(1) have d: "data = v"
      and c: "cache' = (wheel_fn, v) # filter (\<lambda>(k', v'). k' \<noteq> wheel_fn) cache"
      by (auto simp: get_wheel_elfdata_def lru_cache_call_def)
    with Some show ?thesis by simp
  qed
  then obtain rest where c': "cache' = (wheel_fn, data) # rest"
    and f: "filter (\<lambda>(k', v'). k' \<noteq> wheel_fn) rest = rest"
    by blast
  have again: "get_wheel_elfdata e fs' cache' wheel_fn = (Inr data, cache')"
    by (simp add: get_wheel_elfdata_def lru_cache_call_def c' f)
  have "cached_within 0 wheel_fn data cache'"
    unfolding cached_within_def c' by (intro exI [of _ "[]"] exI [of _ rest]) simp
  from run_calls_keeps [OF this, of calls e] assms(2)
  have "map_of (run_calls e calls cache') wheel_fn = Some data"
    by (simp add: cached_within_map_of)
  then have later: "fst (get_wheel_elfdata e fs' (run_calls e calls cache') wheel_fn) = Inr data"
    by (rule hit)
  from again later first hit miss show ?thesis by blast
qed

theorem memo_keyed_by_path_only_witness:
  "\<exists>data cache'.
     get_wheel_elfdata ex_env (\<lambda>fn. ex_wheel) [] ''pkg.whl'' = (Inr data, cache') \<and>
     get_wheel_elfdata ex_env (\<lambda>fn. ex_vendored_wheel) cache' ''pkg.whl'' = (Inr data, cache') \<and>
     fst (get_wheel_elfdata ex_env (\<lambda>fn. ex_vendored_wheel)
            (run_calls ex_env [(\<lambda>fn. ex_helper_wheel, ''other.whl'')] cache') ''pkg.whl'') =
       Inr data \<and>
     get_wheel_elfdata_wrapped ex_env ex_wheel = Inr data"
proof -
  have "\<exists>data cache'.
     get_wheel_elfdata ex_env (\<lambda>fn. ex_wheel) [] ''pkg.whl'' = (Inr data, cache')"
    by (simp add: ex_defs elfdata_defs)
  then obtain data cache' where
    a: "get_wheel_elfdata ex_env (\<lambda>fn. ex_wheel) [] ''pkg.whl'' = (Inr data, cache')"
    by blast
  have l: "length [(\<lambda>fn :: string. ex_helper_wheel, ''other.whl'')] < 128" by simp
  from memo_keyed_by_path_only [OF a l, of "\<lambda>fn. ex_vendored_wheel"] a show ?thesis
    by auto
qed

text \<open>
  C9, as stated, fails: the package at \<^verbatim>\<open>pkg.whl\<close> is analysed, then its content
  changes (a library is added), and the second call returns the first result, which is
  not the analysis of the content current at the second call.
\<close>

theorem memo_stale_counterexample:
  "\<exists>data cache'.
     get_wheel_elfdata ex_env (\<lambda>fn. ex_wheel) [] ''pkg.whl'' = (Inr data, cache') \<and>
     fst (get_wheel_elfdata ex_env (\<lambda>fn. ex_vendored_wheel) cache' ''pkg.whl'') = Inr data \<and>
     get_wheel_elfdata_wrapped ex_env ex_vendored_wheel \<noteq> Inr data"
  by (simp add: ex_defs elfdata_defs)

section \<open>The two special symbols\<close>

lemma promote_fold_frame:
  "\<exists>A B. fold (\<lambda>(fn, tree) acc.
              if P fn then
                acc\<lparr>d_full_elftree := dict_set fn tree (d_full_elftree acc),
                    d_full_external_refs := dict_set fn (g tree) (d_full_external_refs acc)\<rparr>
              else acc) xs st = st\<lparr>d_full_elftree := A, d_full_external_refs := B\<rparr>"
proof (induction xs arbitrary: st)
  case Nil
  have "st = st\<lparr>d_full_elftree := d_full_elftree st, d_full_external_refs := d_full_external_refs st\<rparr>"
    by simp
  then show ?case by (metis fold_simps(1))
next
  case (Cons x xs)
  obtain fn tree where x: "x = (fn, tree)" by (cases x)
  show ?case
  proof (cases "P fn")
    case True
    from Cons.IH [of "st\<lparr>d_full_elftree := dict_set fn tree (d_full_elftree st),
                    d_full_external_refs := dict_set fn (g tree) (d_full_external_refs st)\<rparr>"]
    show ?thesis by (simp add: x True)
  next
    case False
    from Cons.IH [of st] show ?thesis by (simp add: x False)
  qed
qed

lemma promote_nonpy_frame:
  "\<exists>A B. promote_nonpy e path st = st\<lparr>d_full_elftree := A, d_full_external_refs := B\<rparr>"
  unfolding promote_nonpy_def Let_def by (rule promote_fold_frame)

lemma flags_promote_nonpy:
  "d_uses_PyFPE_jbuf (promote_nonpy e path st) = d_uses_PyFPE_jbuf st"
  "d_uses_ucs2_symbols (promote_nonpy e path st) = d_uses_ucs2_symbols st"
  "d_nonpy_elftree (promote_nonpy e path st) = d_nonpy_elftree st"
proof -
  obtain A B where "promote_nonpy e path st = st\<lparr>d_full_elftree := A, d_full_external_refs := B\<rparr>"
    using promote_nonpy_frame by blast
  then show "d_uses_PyFPE_jbuf (promote_nonpy e path st) = d_uses_PyFPE_jbuf st"
    "d_uses_ucs2_symbols (promote_nonpy e path st) = d_uses_ucs2_symbols st"
    "d_nonpy_elftree (promote_nonpy e path st) = d_nonpy_elftree st"
    by simp_all
qed


lemma flags_process_elf:
  "d_uses_PyFPE_jbuf (process_elf e path f st) =
     (d_uses_PyFPE_jbuf st \<or> file_is_py_ext f \<and> elf_references_PyFPE_jbuf (file_elf f))"
  "d_uses_ucs2_symbols (process_elf e path f st) =
     (d_uses_ucs2_symbols st \<or>
      file_is_py_ext f \<and> file_py_ver f = Some 2 \<and> elf_find_ucs2_symbols (file_elf f) \<noteq> [])"
  by (simp_all add: process_elf_def Let_def)

lemma PyFPE_elf_loop:
  "elf_loop e path fs st = Inr st' \<Longrightarrow>
   d_uses_PyFPE_jbuf st' \<longleftrightarrow>
     d_uses_PyFPE_jbuf st \<or>
     (\<exists>f \<in> set fs. file_is_py_ext f \<and> elf_references_PyFPE_jbuf (file_elf f))"
proof (induction fs arbitrary: st)
  case Nil
  then show ?case by simp
next
  case (Cons f fs)
  from Cons.IH [OF elf_loop_Cons_Inr(2) [OF Cons.prems]]
  show ?case unfolding flags_process_elf by auto
qed

lemma ucs2_elf_loop:
  "elf_loop e path fs st = Inr st' \<Longrightarrow>
   d_uses_ucs2_symbols st' \<longleftrightarrow>
     d_uses_ucs2_symbols st \<or>
     (\<exists>f \<in> set fs. file_is_py_ext f \<and> file_py_ver f = Some 2 \<and>
        elf_find_ucs2_symbols (file_elf f) \<noteq> [])"
proof (induction fs arbitrary: st)
  case Nil
  then show ?case by simp
next
  case (Cons f fs)
  from Cons.IH [OF elf_loop_Cons_Inr(2) [OF Cons.prems]]
  show ?case unfolding flags_process_elf by auto
qed

text \<open>
  C8, as the code has it. The two flags are those of the package, and only the extension
  modules set them: the floating-point-exception-buffer flag is set exactly when some
  extension module has the name \<^verbatim>\<open>PyFPE_jbuf\<close> among its imported symbols, and the
  narrow-unicode flag exactly when some extension module of Python major version 2 has
  at least one narrow-unicode symbol, however many. An object that is not an extension
  module sets neither.
\<close>

theorem flags_from_extension_modules:
  assumes "get_wheel_elfdata_wrapped e w = Inr data"
  shows "(d_uses_PyFPE_jbuf data \<longleftrightarrow>
            (\<exists>f \<in> set (wheel_files w).
               file_is_py_ext f \<and> ''PyFPE_jbuf'' \<in> set (elf_imported_symbols (file_elf f)))) \<and>
         (d_uses_ucs2_symbols data \<longleftrightarrow>
            (\<exists>f \<in> set (wheel_files w).
               file_is_py_ext f \<and> file_py_ver f = Some 2 \<and>
               0 < length (elf_find_ucs2_symbols (file_elf f))))"
proof -
  from assms obtain st where
    loop: "elf_loop e (ctx_path w) (wheel_files w) empty_elfdata = Inr st"
    and data: "data = promote_nonpy e (ctx_path w) st"
    by (rule get_wheel_elfdata_wrapped_Inr)
  have z: "\<not> d_uses_PyFPE_jbuf empty_elfdata" "\<not> d_uses_ucs2_symbols empty_elfdata"
    by (simp_all add: empty_elfdata_def)
  from PyFPE_elf_loop [OF loop] z(1)
  have a: "d_uses_PyFPE_jbuf data \<longleftrightarrow>
      (\<exists>f \<in> set (wheel_files w). file_is_py_ext f \<and> elf_references_PyFPE_jbuf (file_elf f))"
    by (simp add: data flags_promote_nonpy)
  from ucs2_elf_loop [OF loop] z(2)
  have b: "d_uses_ucs2_symbols data \<longleftrightarrow>
      (\<exists>f \<in> set (wheel_files w). file_is_py_ext f \<and> file_py_ver f = Some 2 \<and>
        elf_find_ucs2_symbols (file_elf f) \<noteq> [])"
    by (simp add: data flags_promote_nonpy)
  show ?thesis unfolding a b elf_references_PyFPE_jbuf_def by simp
qed

theorem flags_from_extension_modules_witness:
  "\<exists>data. get_wheel_elfdata_wrapped ex_env ex_ucs2_wheel = Inr data \<and>
          d_uses_PyFPE_jbuf data \<and> d_uses_ucs2_symbols data"
proof -
  have "\<exists>data. get_wheel_elfdata_wrapped ex_env ex_ucs2_wheel = Inr data"
    by (simp add: ex_defs elfdata_defs)
  then obtain data where d: "get_wheel_elfdata_wrapped ex_env ex_ucs2_wheel = Inr data" ..
  have "\<exists>f \<in> set (wheel_files ex_ucs2_wheel).
       file_is_py_ext f \<and> ''PyFPE_jbuf'' \<in> set (elf_imported_symbols (file_elf f))"
    by (simp add: ex_ucs2_wheel_def ex_elf_def)
  moreover have "\<exists>f \<in> set (wheel_files ex_ucs2_wheel).
       file_is_py_ext f \<and> file_py_ver f = Some 2 \<and>
       0 < length (elf_find_ucs2_symbols (file_elf f))"
    by (simp add: ex_ucs2_wheel_def ex_elf_def elf_find_ucs2_symbols_def)
  ultimately have "d_uses_PyFPE_jbuf data \<and> d_uses_ucs2_symbols data"
    using flags_from_extension_modules [OF d] by blast
  with d show ?thesis by blast
qed

text \<open>
  C8, as stated for every analyzed object, fails: a shared library that is not an
  extension module and that no object needs is analyzed at top level (it is in
  \<^verbatim>\<open>full_elftree\<close> and in \<^verbatim>\<open>full_external_refs\<close>), it imports \<^verbatim>\<open>PyFPE_jbuf\<close> by
  that exact name, and the flag is not set.
\<close>

theorem flags_every_analyzed_object_counterexample:
  "\<exists>data. get_wheel_elfdata_wrapped ex_env ex_helper_wheel = Inr data \<and>
          ''pkg/libhelper.so'' \<in> fst ` set (d_full_elftree data) \<and>
          ''pkg/libhelper.so'' \<in> fst ` set (d_full_external_refs data) \<and>
          (\<exists>f \<in> set (wheel_files ex_helper_wheel).
             file_fn f = ''pkg/libhelper.so'' \<and>
             ''PyFPE_jbuf'' \<in> set (elf_imported_symbols (file_elf f))) \<and>
          \<not> d_uses_PyFPE_jbuf data"
proof -
  have a: "\<exists>f \<in> set (wheel_files ex_helper_wheel).
             file_fn f = ''pkg/libhelper.so'' \<and>
             ''PyFPE_jbuf'' \<in> set (elf_imported_symbols (file_elf f))"
    by (simp add: ex_helper_wheel_def ex_elf_def)
  have b: "\<exists>data. get_wheel_elfdata_wrapped ex_env ex_helper_wheel = Inr data \<and>
          ''pkg/libhelper.so'' \<in> fst ` set (d_full_elftree data) \<and>
          ''pkg/libhelper.so'' \<in> fst ` set (d_full_external_refs data) \<and>
          \<not> d_uses_PyFPE_jbuf data"
    by (simp add: ex_defs elfdata_defs)
  from a b show ?thesis by blast
qed

section \<open>Which objects are analyzed at top level\<close>

lemma trees_process_elf:
  "d_full_elftree (process_elf e path f st) =
     (if file_is_py_ext f then dict_set (file_fn f) (file_elftree f) (d_full_elftree st)
      else d_full_elftree st)"
  "d_nonpy_elftree (process_elf e path f st) =
     (if file_is_py_ext f then d_nonpy_elftree st
      else dict_set (file_fn f) (file_elftree f) (d_nonpy_elftree st))"
  "d_full_external_refs (process_elf e path f st) =
     (if file_is_py_ext f
      then dict_set (file_fn f) (lddtree_external_references e (file_elftree f) path)
             (d_full_external_refs st)
      else d_full_external_refs st)"
  by (simp_all add: process_elf_def Let_def)

lemma fresh_for_step:
  assumes "fresh_for (f # fs) st"
  shows "fresh_for fs (process_elf e path f st)"
    and "file_fn f \<notin> fst ` set (d_full_elftree st)"
    and "file_fn f \<notin> fst ` set (d_nonpy_elftree st)"
    and "file_fn f \<notin> fst ` set (d_full_external_refs st)"
  using assms unfolding fresh_for_def trees_process_elf
  by (auto simp: keys_dict_set)

lemma elf_loop_lists:
  assumes "elf_loop e path fs st = Inr st'" and "fresh_for fs st"
  shows "d_full_elftree st' =
           d_full_elftree st @ map (\<lambda>f. (file_fn f, file_elftree f)) (filter file_is_py_ext fs) \<and>
         d_nonpy_elftree st' =
           d_nonpy_elftree st @
           map (\<lambda>f. (file_fn f, file_elftree f)) (filter (\<lambda>f. \<not> file_is_py_ext f) fs) \<and>
         d_full_external_refs st' =
           d_full_external_refs st @
           map (\<lambda>f. (file_fn f, lddtree_external_references e (file_elftree f) path))
             (filter file_is_py_ext fs)"
  using assms
proof (induction fs arbitrary: st)
  case Nil
  then show ?case by simp
next
  case (Cons f fs)
  note ih = Cons.IH [OF elf_loop_Cons_Inr(2) [OF Cons.prems(1)] fresh_for_step(1) [OF Cons.prems(2)]]
  note fr = fresh_for_step(2-4) [OF Cons.prems(2)]
  show ?case
  proof (cases "file_is_py_ext f")
    case True
    with ih fr show ?thesis by (simp add: trees_process_elf dict_set_new)
  next
    case False
    with ih fr show ?thesis by (simp add: trees_process_elf dict_set_new)
  qed
qed


lemma promote_fold_lists:
  assumes "distinct (map fst xs)"
    and "fst ` set xs \<inter> (fst ` set (d_full_elftree st) \<union> fst ` set (d_full_external_refs st)) = {}"
  shows "fold (\<lambda>(fn, tree) acc.
              if P fn then
                acc\<lparr>d_full_elftree := dict_set fn tree (d_full_elftree acc),
                    d_full_external_refs := dict_set fn (g tree) (d_full_external_refs acc)\<rparr>
              else acc) xs st =
         st\<lparr>d_full_elftree := d_full_elftree st @ filter (\<lambda>(fn, tree). P fn) xs,
            d_full_external_refs :=
              d_full_external_refs st @
              map (\<lambda>(fn, tree). (fn, g tree)) (filter (\<lambda>(fn, tree). P fn) xs)\<rparr>"
  using assms
proof (induction xs arbitrary: st)
  case Nil
  then show ?case by simp
next
  case (Cons x xs)
  obtain fn tree where x: "x = (fn, tree)" by (cases x)
  from Cons.prems have d: "distinct (map fst xs)" and nfn: "fn \<notin> fst ` set xs"
    and n1: "fn \<notin> fst ` set (d_full_elftree st)"
    and n2: "fn \<notin> fst ` set (d_full_external_refs st)"
    and dj: "fst ` set xs \<inter>
      (fst ` set (d_full_elftree st) \<union> fst ` set (d_full_external_refs st)) = {}"
    by (auto simp: x)
  show ?case
  proof (cases "P fn")
    case True
    let ?st = "st\<lparr>d_full_elftree := dict_set fn tree (d_full_elftree st),
                    d_full_external_refs := dict_set fn (g tree) (d_full_external_refs st)\<rparr>"
    have "fst ` set xs \<inter>
      (fst ` set (d_full_elftree ?st) \<union> fst ` set (d_full_external_refs ?st)) = {}"
      using dj nfn by (auto simp: keys_dict_set)
    from Cons.IH [OF d this] n1 n2 show ?thesis
      by (simp add: x True dict_set_new)
  next
    case False
    from Cons.IH [OF d dj] show ?thesis by (simp add: x False)
  qed
qed

lemma filter_map_pair:
  "filter (\<lambda>(fn, tree). P fn) (map (\<lambda>f. (file_fn f, file_elftree f)) fs) =
     map (\<lambda>f. (file_fn f, file_elftree f)) (filter (\<lambda>f. P (file_fn f)) fs)"
  by (induction fs) auto

lemma get_wheel_elfdata_wrapped_lists:
  assumes "get_wheel_elfdata_wrapped e w = Inr data"
    and "distinct (map file_fn (wheel_files w))"
  shows "d_full_elftree data =
           map (\<lambda>f. (file_fn f, file_elftree f)) (top_level_files (wheel_files w))"
    and "d_full_external_refs data =
           map (\<lambda>f. (file_fn f, lddtree_external_references e (file_elftree f) (ctx_path w)))
             (top_level_files (wheel_files w))"
proof -
  let ?fs = "wheel_files w"
  from assms(1) obtain st where
    loop: "elf_loop e (ctx_path w) ?fs empty_elfdata = Inr st"
    and data: "data = promote_nonpy e (ctx_path w) st"
    by (rule get_wheel_elfdata_wrapped_Inr)
  have "fresh_for ?fs empty_elfdata"
    using assms(2) by (simp add: fresh_for_def empty_elfdata_def)
  from elf_loop_lists [OF loop this]
  have full: "d_full_elftree st = map (\<lambda>f. (file_fn f, file_elftree f)) (filter file_is_py_ext ?fs)"
    and nonpy: "d_nonpy_elftree st =
      map (\<lambda>f. (file_fn f, file_elftree f)) (filter (\<lambda>f. \<not> file_is_py_ext f) ?fs)"
    and refs: "d_full_external_refs st =
      map (\<lambda>f. (file_fn f, lddtree_external_references e (file_elftree f) (ctx_path w)))
        (filter file_is_py_ext ?fs)"
    by (simp_all add: empty_elfdata_def)
  have needed: "needed_libs st = all_needed ?fs"
    by (auto simp: needed_libs_def all_needed_def full nonpy)
  have dn: "distinct (map fst (d_nonpy_elftree st))"
    using assms(2) by (simp add: nonpy comp_def distinct_map_filter)
  have dj: "fst ` set (d_nonpy_elftree st) \<inter>
      (fst ` set (d_full_elftree st) \<union> fst ` set (d_full_external_refs st)) = {}"
  proof -
    have "\<And>f g. f \<in> set ?fs \<Longrightarrow> g \<in> set ?fs \<Longrightarrow> file_fn f = file_fn g \<Longrightarrow> f = g"
      using assms(2) by (meson distinct_map inj_onD)
    then show ?thesis unfolding full nonpy refs by (auto simp: image_iff) metis+
  qed
  have prom: "promote_nonpy e (ctx_path w) st =
      st\<lparr>d_full_elftree := d_full_elftree st @
             filter (\<lambda>(fn, tree). basename fn \<notin> all_needed ?fs) (d_nonpy_elftree st),
         d_full_external_refs := d_full_external_refs st @
             map (\<lambda>(fn, tree). (fn, lddtree_external_references e tree (ctx_path w)))
               (filter (\<lambda>(fn, tree). basename fn \<notin> all_needed ?fs) (d_nonpy_elftree st))\<rparr>"
    unfolding promote_nonpy_def Let_def needed
    by (rule promote_fold_lists [OF dn dj])
  show "d_full_elftree data =
           map (\<lambda>f. (file_fn f, file_elftree f)) (top_level_files ?fs)"
    unfolding data prom
    by (simp add: full nonpy filter_map_pair top_level_files_def conj_commute)
  show "d_full_external_refs data =
           map (\<lambda>f. (file_fn f, lddtree_external_references e (file_elftree f) (ctx_path w)))
             (top_level_files ?fs)"
    unfolding data prom
    by (simp add: refs nonpy filter_map_pair top_level_files_def conj_commute comp_def)
qed


lemma distinct_top_level_files:
  assumes "distinct (map file_fn fs)"
  shows "distinct (map file_fn (top_level_files fs))"
proof -
  have inj: "inj_on file_fn (set fs)" and d: "distinct fs"
    using assms by (simp_all add: distinct_map)
  have "distinct (top_level_files fs)"
    using d by (auto simp: top_level_files_def)
  moreover have "inj_on file_fn (set (top_level_files fs))"
    by (rule inj_on_subset [OF inj]) (auto simp: top_level_files_def)
  ultimately show ?thesis by (simp add: distinct_map)
qed

text \<open>
  C2, as the code has it. In a package whose ELF paths are distinct, an object that is
  not an extension module is analyzed at top level if and only if its base name is not
  among the names needed by the objects of the package. The objects analyzed at top
  level are the extension modules followed by those objects, in the order of the
  package; each has one dependency tree and one record of external references, under
  its own path.
\<close>

theorem top_level_rule:
  assumes "get_wheel_elfdata_wrapped e w = Inr data"
    and "distinct (map file_fn (wheel_files w))"
  shows "(\<forall>f \<in> set (wheel_files w).
            \<not> file_is_py_ext f \<longrightarrow>
            (file_fn f \<in> fst ` set (d_full_elftree data) \<longleftrightarrow>
             basename (file_fn f) \<notin> all_needed (wheel_files w))) \<and>
         d_full_elftree data =
           map (\<lambda>f. (file_fn f, file_elftree f)) (top_level_files (wheel_files w)) \<and>
         d_full_external_refs data =
           map (\<lambda>f. (file_fn f, lddtree_external_references e (file_elftree f) (ctx_path w)))
             (top_level_files (wheel_files w)) \<and>
         distinct (map fst (d_full_external_refs data))"
proof -
  let ?fs = "wheel_files w"
  note lists = get_wheel_elfdata_wrapped_lists [OF assms]
  have inj: "\<And>f g. f \<in> set ?fs \<Longrightarrow> g \<in> set ?fs \<Longrightarrow> file_fn f = file_fn g \<Longrightarrow> f = g"
    using assms(2) by (meson distinct_map inj_onD)
  have iff: "file_fn f \<in> fst ` set (d_full_elftree data) \<longleftrightarrow>
      basename (file_fn f) \<notin> all_needed ?fs"
    if f: "f \<in> set ?fs" and ne: "\<not> file_is_py_ext f" for f
  proof
    assume "file_fn f \<in> fst ` set (d_full_elftree data)"
    then obtain g where g: "g \<in> set (top_level_files ?fs)" and eq: "file_fn g = file_fn f"
      unfolding lists by (auto simp: image_iff)
    from g have "g \<in> set ?fs" by (auto simp: top_level_files_def)
    with inj f eq have "g = f" by blast
    with g ne show "basename (file_fn f) \<notin> all_needed ?fs"
      by (auto simp: top_level_files_def)
  next
    assume "basename (file_fn f) \<notin> all_needed ?fs"
    with f ne have "f \<in> set (top_level_files ?fs)" by (simp add: top_level_files_def)
    then show "file_fn f \<in> fst ` set (d_full_elftree data)"
      unfolding lists by (force simp: image_iff)
  qed
  have "map fst (d_full_external_refs data) = map file_fn (top_level_files ?fs)"
    unfolding lists by (simp add: comp_def)
  with distinct_top_level_files [OF assms(2)]
  have "distinct (map fst (d_full_external_refs data))" by simp
  with iff lists show ?thesis by blast
qed

theorem top_level_rule_witness:
  "\<exists>data. get_wheel_elfdata_wrapped ex_env ex_vendored_wheel = Inr data \<and>
          map fst (d_full_elftree data) = [''pkg/_mod.so''] \<and>
          ''pkg/.libs/libfoo.so'' \<notin> fst ` set (d_full_elftree data) \<and>
          basename ''pkg/.libs/libfoo.so'' \<in> all_needed (wheel_files ex_vendored_wheel)"
proof -
  have "\<exists>data. get_wheel_elfdata_wrapped ex_env ex_vendored_wheel = Inr data"
    by (simp add: ex_defs elfdata_defs)
  then obtain data where d: "get_wheel_elfdata_wrapped ex_env ex_vendored_wheel = Inr data" ..
  have dis: "distinct (map file_fn (wheel_files ex_vendored_wheel))"
    by (simp add: ex_vendored_wheel_def ex_ext_def)
  have n: "basename ''pkg/.libs/libfoo.so'' \<in> all_needed (wheel_files ex_vendored_wheel)"
    by (simp add: ex_vendored_wheel_def ex_ext_def all_needed_def basename_def)
  have t: "top_level_files (wheel_files ex_vendored_wheel) = [ex_ext]"
    by (simp add: top_level_files_def ex_vendored_wheel_def ex_ext_def all_needed_def basename_def)
  from top_level_rule [OF d dis] have
    "d_full_elftree data =
       map (\<lambda>f. (file_fn f, file_elftree f)) (top_level_files (wheel_files ex_vendored_wheel))"
    by blast
  then have "map fst (d_full_elftree data) = [''pkg/_mod.so'']"
    unfolding t by (simp add: ex_ext_def)
  with d n show ?thesis by auto
qed

text \<open>
  C2, as stated, fails in its second half. Two extension modules need the same external
  library, which is then in the external references of two top-level objects, not of
  exactly one; and two libraries that need each other are both left out of the
  top-level analysis, so that the external library one of them needs is in the external
  references of no top-level object.
\<close>

theorem visited_once_counterexample:
  "(\<exists>data. get_wheel_elfdata_wrapped ex_env ex_two_ext_wheel = Inr data \<and>
           ''libz.so.1'' \<in> set (reachable_deps ex_env ex_two_ext_wheel) \<and>
           visits data ''libz.so.1'' = 2 \<and>
           \<not> visited_exactly_once ex_env ex_two_ext_wheel data) \<and>
   (\<exists>data. get_wheel_elfdata_wrapped ex_env ex_cycle_wheel = Inr data \<and>
           ''libz.so.1'' \<in> set (reachable_deps ex_env ex_cycle_wheel) \<and>
           d_full_elftree data = [] \<and>
           visits data ''libz.so.1'' = 0 \<and>
           \<not> visited_exactly_once ex_env ex_cycle_wheel data)"
proof -
  have "\<exists>data. get_wheel_elfdata_wrapped ex_env ex_two_ext_wheel = Inr data \<and>
           ''libz.so.1'' \<in> set (reachable_deps ex_env ex_two_ext_wheel) \<and>
           visits data ''libz.so.1'' = 2 \<and>
           \<not> visited_exactly_once ex_env ex_two_ext_wheel data"
    by (simp add: ex_defs elfdata_defs visited_exactly_once_def visits_def reachable_deps_def
        external_deps_def)
  moreover have "\<exists>data. get_wheel_elfdata_wrapped ex_env ex_cycle_wheel = Inr data \<and>
           ''libz.so.1'' \<in> set (reachable_deps ex_env ex_cycle_wheel) \<and>
           d_full_elftree data = [] \<and>
           visits data ''libz.so.1'' = 0 \<and>
           \<not> visited_exactly_once ex_env ex_cycle_wheel data"
    by (simp add: ex_defs elfdata_defs visited_exactly_once_def visits_def reachable_deps_def
        external_deps_def)
  ultimately show ?thesis by (rule conjI)
qed

section \<open>\<^verbatim>\<open>update\<close> on external references\<close>

lemma update_scalar_step:
  "update (PDict D) ((k, enc_realpath r) # u) = update (PDict (dict_set k (enc_realpath r) D)) u"
  by (cases r) (simp_all add: enc_realpath_def)

lemma update_priority_step:
  "update (PDict D) ((k, PInt n) # u) = update (PDict (dict_set k (PInt n) D)) u"
  by simp

lemma update_dict_step:
  "update (PDict D) ((k, PDict vd) # u) =
     (case update (case map_of D k of Some x \<Rightarrow> x | None \<Rightarrow> PDict []) vd of
        Inl x \<Rightarrow> Inl x
      | Inr r \<Rightarrow> update (PDict (dict_set k r D)) u)"
  by (simp split: sum.splits)

lemma enc_libs_Cons: "enc_libs ((k, r) # u) = (k, enc_realpath r) # enc_libs u"
  by (simp add: enc_libs_def)

lemma enc_libs_Nil: "enc_libs [] = []"
  by (simp add: enc_libs_def)

lemma enc_libs_dict_set:
  "dict_set k (enc_realpath r) (enc_libs d) = enc_libs (dict_set k r d)"
  by (induction d) (auto simp: enc_libs_def)

lemma update_enc_libs:
  "update (PDict (enc_libs d)) (enc_libs u) = Inr (PDict (enc_libs (merge_libs d u)))"
proof (induction u arbitrary: d)
  case Nil
  then show ?case by (simp add: enc_libs_Nil merge_libs_def)
next
  case (Cons x u)
  obtain k r where x: "x = (k, r)" by (cases x)
  have "update (PDict (enc_libs d)) (enc_libs (x # u)) =
      update (PDict (enc_libs (dict_set k r d))) (enc_libs u)"
    unfolding x enc_libs_Cons update_scalar_step enc_libs_dict_set ..
  also have "\<dots> = Inr (PDict (enc_libs (merge_libs (dict_set k r d) u)))"
    by (rule Cons.IH)
  finally show ?case by (simp add: merge_libs_def x)
qed

lemma update_enc_policy_refs:
  "update (case d of None \<Rightarrow> PDict [] | Some p \<Rightarrow> enc_policy_refs p)
     [(''libs'', PDict (enc_libs (ref_libs pu))), (''priority'', PInt (ref_priority pu))] =
   Inr (enc_policy_refs (merge_policy_refs d pu))"
proof (cases d)
  case None
  have "update (PDict []) (enc_libs (ref_libs pu)) =
      Inr (PDict (enc_libs (merge_libs [] (ref_libs pu))))"
    using update_enc_libs [of "[]"] by (simp add: enc_libs_Nil)
  then show ?thesis
    unfolding None option.case update_dict_step
    by (simp add: enc_policy_refs_def merge_policy_refs_def)
next
  case (Some p)
  have "update (PDict (enc_libs (ref_libs p))) (enc_libs (ref_libs pu)) =
      Inr (PDict (enc_libs (merge_libs (ref_libs p) (ref_libs pu))))"
    by (rule update_enc_libs)
  then show ?thesis
    unfolding Some option.case enc_policy_refs_def [of p] update_dict_step
    by (simp add: enc_policy_refs_def merge_policy_refs_def)
qed

lemma map_of_enc_external_refs:
  "map_of (enc_external_refs d) k = map_option enc_policy_refs (map_of d k)"
  by (induction d) (auto simp: enc_external_refs_def)

lemma enc_external_refs_Cons:
  "enc_external_refs ((name, pu) # u) =
     (name, PDict [(''libs'', PDict (enc_libs (ref_libs pu))), (''priority'', PInt (ref_priority pu))])
     # enc_external_refs u"
  by (simp add: enc_external_refs_def enc_policy_refs_def)

lemma enc_external_refs_dict_set:
  "dict_set k (enc_policy_refs p) (enc_external_refs d) = enc_external_refs (dict_set k p d)"
  by (induction d) (auto simp: enc_external_refs_def)

lemma get_enc_external_refs:
  "(case map_of (enc_external_refs d) name of Some x \<Rightarrow> x | None \<Rightarrow> PDict []) =
     (case map_of d name of None \<Rightarrow> PDict [] | Some p \<Rightarrow> enc_policy_refs p)"
  by (cases "map_of d name") (simp_all add: map_of_enc_external_refs)

lemma update_enc_external_refs:
  "update (PDict (enc_external_refs d)) (enc_external_refs u) =
     Inr (PDict (enc_external_refs (merge_external_refs d u)))"
proof (induction u arbitrary: d)
  case Nil
  then show ?case by (simp add: enc_external_refs_def merge_external_refs_def)
next
  case (Cons x u)
  obtain name pu where x: "x = (name, pu)" by (cases x)
  have "update (PDict (enc_external_refs d)) (enc_external_refs (x # u)) =
      update (PDict (enc_external_refs (dict_set name (merge_policy_refs (map_of d name) pu) d)))
        (enc_external_refs u)"
    unfolding x enc_external_refs_Cons update_dict_step get_enc_external_refs
      update_enc_policy_refs sum.case enc_external_refs_dict_set ..
  also have "\<dots> = Inr (PDict (enc_external_refs
      (merge_external_refs (dict_set name (merge_policy_refs (map_of d name) pu) d) u)))"
    by (rule Cons.IH)
  finally show ?case by (simp add: merge_external_refs_def x)
qed

lemma dec_enc_realpath: "dec_realpath (enc_realpath r) = Inr r"
  by (cases r) (simp_all add: enc_realpath_def)

lemma dec_enc_libs: "dec_libs (enc_libs l) = Inr l"
  by (induction l) (auto simp: enc_libs_def dec_enc_realpath)

lemma dec_enc_policy_refs: "dec_policy_refs (enc_policy_refs p) = Inr p"
  by (simp add: enc_policy_refs_def dec_enc_libs)

lemma dec_enc_items: "dec_items (enc_external_refs r) = Inr r"
  by (induction r) (auto simp: enc_external_refs_def dec_enc_policy_refs)

lemma dec_enc_external_refs: "dec_external_refs (PDict (enc_external_refs r)) = Inr r"
  by (simp add: dec_enc_items)

lemma enc_initial_fold:
  "fold (\<lambda>p d. dict_set (policy_name p)
                  (PDict [(''libs'', PDict []), (''priority'', PInt (policy_priority p))]) d)
     ps (enc_external_refs d) =
   enc_external_refs
     (fold (\<lambda>p d. dict_set (policy_name p) \<lparr>ref_libs = [], ref_priority = policy_priority p\<rparr> d)
        ps d)"
proof (induction ps arbitrary: d)
  case Nil
  then show ?case by simp
next
  case (Cons p ps)
  have "PDict [(''libs'', PDict []), (''priority'', PInt (policy_priority p))] =
      enc_policy_refs \<lparr>ref_libs = [], ref_priority = policy_priority p\<rparr>"
    by (simp add: enc_policy_refs_def enc_libs_def)
  then show ?case
    by (simp add: enc_external_refs_dict_set Cons.IH)
qed

lemma initial_external_refs_typed:
  "initial_external_refs e = PDict (enc_external_refs (initial_refs e))"
  using enc_initial_fold [of "load_policies e" "[]"]
  by (simp add: initial_external_refs_def initial_refs_def enc_external_refs_def)

lemma accumulate_external_refs_enc:
  "accumulate_external_refs (PDict (enc_external_refs d)) fns by_fn =
     (case accumulate_refs d fns by_fn of
        Inl x \<Rightarrow> Inl x
      | Inr r \<Rightarrow> Inr (PDict (enc_external_refs r)))"
proof (induction fns arbitrary: d)
  case Nil
  then show ?case by simp
next
  case (Cons fn fns)
  show ?case
  proof (cases "dict_getitem by_fn fn")
    case (Inl x)
    then show ?thesis by simp
  next
    case (Inr u)
    then show ?thesis by (simp add: update_enc_external_refs Cons.IH)
  qed
qed

lemma accumulate_external_refs_typed:
  "(case accumulate_external_refs (initial_external_refs e) fns by_fn of
      Inl x \<Rightarrow> Inl x
    | Inr refs \<Rightarrow> dec_external_refs refs) =
   accumulate_refs (initial_refs e) fns by_fn"
  unfolding initial_external_refs_typed accumulate_external_refs_enc
  by (cases "accumulate_refs (initial_refs e) fns by_fn") (simp_all add: dec_enc_items)

lemma analyze_priorities_typed:
  "analyze_priorities e data =
     (case accumulate_refs (initial_refs e) (map fst (d_full_elftree data))
             (d_full_external_refs data) of
        Inl x \<Rightarrow> Inl x
      | Inr external_refs \<Rightarrow>
          (case get_versioned_symbols e (get_external_libs external_refs) of
             Inl x \<Rightarrow> Inl x
           | Inr external_versioned_symbols \<Rightarrow>
               (let (symbol_policy, versioned_symbols) =
                      symbol_policy_of e (d_versioned_symbols data)
                        external_versioned_symbols external_refs
                in Inr \<lparr>p_external_refs = external_refs,
                        p_versioned_symbols = versioned_symbols,
                        p_symbol_policy = symbol_policy,
                        p_ref_policy = ref_policy_of e external_refs,
                        p_ucs_policy = flag_policy_of e (d_uses_ucs2_symbols data),
                        p_pyfpe_policy = flag_policy_of e (d_uses_PyFPE_jbuf data)\<rparr>)))"
  unfolding analyze_priorities_def initial_external_refs_typed accumulate_external_refs_enc
  by (cases "accumulate_refs (initial_refs e) (map fst (d_full_elftree data))
             (d_full_external_refs data)") (simp_all add: dec_enc_items)

section \<open>The external references of a policy\<close>

lemma map_of_merge_libs: "map_of (merge_libs d u) = map_of d ++ map_of (rev u)"
proof (induction u arbitrary: d)
  case Nil
  then show ?case by (simp add: merge_libs_def)
next
  case (Cons x u)
  obtain k r where x: "x = (k, r)" by (cases x)
  have "map_of (merge_libs d (x # u)) = map_of (merge_libs (dict_set k r d) u)"
    by (simp add: merge_libs_def x)
  also have "\<dots> = (map_of d)(k \<mapsto> r) ++ map_of (rev u)"
    unfolding Cons.IH map_of_dict_set ..
  also have "\<dots> = map_of d ++ map_of (rev (x # u))"
    by (simp add: x map_add_upd_left fun_eq_iff map_add_def split: option.splits)
  finally show ?case .
qed

lemma map_of_merge_external_refs:
  assumes "distinct (map fst u)"
  shows "map_of (merge_external_refs d u) name =
           (case map_of u name of
              None \<Rightarrow> map_of d name
            | Some pu \<Rightarrow> Some (merge_policy_refs (map_of d name) pu))"
  using assms
proof (induction u arbitrary: d)
  case Nil
  then show ?case by (simp add: merge_external_refs_def)
next
  case (Cons x u)
  obtain n pu where x: "x = (n, pu)" by (cases x)
  from Cons.prems have d: "distinct (map fst u)" and n: "map_of u n = None"
    by (auto simp: x map_of_eq_None_iff)
  have step: "merge_external_refs d (x # u) =
      merge_external_refs (dict_set n (merge_policy_refs (map_of d n) pu) d) u"
    by (simp add: merge_external_refs_def x)
  show ?case
    unfolding step Cons.IH [OF d]
    by (cases "name = n") (simp_all add: x n map_of_dict_set split: option.splits)
qed

text \<open>
  C3, as the code has it. The external references of a policy are keyed by the declared
  library name. Merging the record of one more object (its policy names distinct, as
  the keys of a dictionary are) writes each of its libraries under its declared name:
  where the name is already there, the real path of the later object replaces the
  earlier one (last writer wins); no declared name is ever removed, so the mapping only
  grows.
\<close>

theorem update_last_writer_wins:
  assumes "distinct (map fst u)"
  shows "update (PDict (enc_external_refs d)) (enc_external_refs u) =
           Inr (PDict (enc_external_refs (merge_external_refs d u))) \<and>
         libs_of (merge_external_refs d u) name =
           (case map_of u name of
              None \<Rightarrow> libs_of d name
            | Some pu \<Rightarrow> libs_of d name ++ map_of (rev (ref_libs pu))) \<and>
         dom (libs_of d name) \<subseteq> dom (libs_of (merge_external_refs d u) name)"
proof -
  have l: "libs_of (merge_external_refs d u) name =
           (case map_of u name of
              None \<Rightarrow> libs_of d name
            | Some pu \<Rightarrow> libs_of d name ++ map_of (rev (ref_libs pu)))"
    unfolding libs_of_def map_of_merge_external_refs [OF assms]
    by (auto simp: merge_policy_refs_def map_of_merge_libs split: option.splits)
  have "dom (libs_of d name) \<subseteq> dom (libs_of (merge_external_refs d u) name)"
    unfolding l by (auto split: option.splits)
  with l update_enc_external_refs show ?thesis by simp
qed


theorem update_last_writer_wins_witness:
  "update
     (PDict (enc_external_refs
        [(''manylinux1'',
          \<lparr>ref_libs = [(''liba.so'', Some ''/x/liba.so'')], ref_priority = 100\<rparr>)]))
     (enc_external_refs
        [(''manylinux1'',
          \<lparr>ref_libs = [(''liba.so'', Some ''/y/liba.so''), (''libb.so'', Some ''/y/libb.so'')],
           ref_priority = 100\<rparr>)]) =
   Inr (PDict (enc_external_refs
        [(''manylinux1'',
          \<lparr>ref_libs = [(''liba.so'', Some ''/y/liba.so''), (''libb.so'', Some ''/y/libb.so'')],
           ref_priority = 100\<rparr>)]))"
proof -
  let ?d = "[(''manylinux1'',
          \<lparr>ref_libs = [(''liba.so'', Some ''/x/liba.so'')], ref_priority = 100\<rparr>)]"
  let ?u = "[(''manylinux1'',
          \<lparr>ref_libs = [(''liba.so'', Some ''/y/liba.so''), (''libb.so'', Some ''/y/libb.so'')],
           ref_priority = 100\<rparr>)]"
  have "distinct (map fst ?u)" by simp
  from update_last_writer_wins [OF this, of ?d "''manylinux1''"]
  have "update (PDict (enc_external_refs ?d)) (enc_external_refs ?u) =
           Inr (PDict (enc_external_refs (merge_external_refs ?d ?u)))"
    by blast
  then show ?thesis
    by (simp add: merge_external_refs_def merge_policy_refs_def merge_libs_def)
qed

text \<open>
  C3, as stated, fails: the first extension module resolves \<^verbatim>\<open>libz.so.1\<close> to
  \<^verbatim>\<open>/usr/lib/libz.so.1.2.11\<close>, the second to \<^verbatim>\<open>/opt/lib/libz.so.1.2.8\<close>, which it
  also reaches as \<^verbatim>\<open>libz.so\<close>. In the policy's external references the later real
  path has replaced the earlier one, and it appears twice.
\<close>

theorem first_writer_counterexample:
  "\<exists>info cache' p.
     analyze_wheel_abi ex_env (\<lambda>fn. ex_rpath_wheel) [] ''w.whl'' = (Inr info, cache') \<and>
     map_of (info_external_refs info) ''manylinux1'' = Some p \<and>
     ref_libs p =
       [(''libfoo.so'', Some ''pkg/.libs/libfoo.so''),
        (''libz.so.1'', Some ''/opt/lib/libz.so.1.2.8''),
        (''libz.so'', Some ''/opt/lib/libz.so.1.2.8'')]"
  by (simp add: ex_defs elfdata_defs analyze_defs)

section \<open>The external libraries and their versioned symbols\<close>


















section \<open>The symbol sub-tag\<close>

lemma analyze_priorities_Inr:
  assumes "analyze_priorities e data = Inr p"
  obtains evs where
    "accumulate_refs (initial_refs e) (map fst (d_full_elftree data))
       (d_full_external_refs data) = Inr (p_external_refs p)"
    and "get_versioned_symbols e (get_external_libs (p_external_refs p)) = Inr evs"
    and "symbol_policy_of e (d_versioned_symbols data) evs (p_external_refs p) =
           (p_symbol_policy p, p_versioned_symbols p)"
    and "p_ref_policy p = ref_policy_of e (p_external_refs p)"
    and "p_ucs_policy p = flag_policy_of e (d_uses_ucs2_symbols data)"
    and "p_pyfpe_policy p = flag_policy_of e (d_uses_PyFPE_jbuf data)"
  using assms unfolding analyze_priorities_typed
  by (auto split: sum.splits prod.splits)

lemma py_max_key_all_default:
  assumes "\<And>y. y \<in> set xs \<Longrightarrow> y = d"
  shows "py_max_key key xs d = d"
proof (cases xs)
  case Nil
  then show ?thesis by (simp add: py_max_key_def)
next
  case (Cons x rest)
  have f: "fold (\<lambda>y best. if key best < key y then y else best) ys d = d"
    if "\<And>y. y \<in> set ys \<Longrightarrow> y = d" for ys
    using that by (induction ys) auto
  from assms Cons have x: "x = d" and r: "\<And>y. y \<in> set rest \<Longrightarrow> y = d" by simp_all
  show ?thesis unfolding py_max_key_def Cons x by (simp add: f [OF r])
qed

lemma policy_symbols_of_no_libs:
  "ref_libs policy = [] \<Longrightarrow> policy_symbols_of vs evs policy = vs"
  by (simp add: policy_symbols_of_def)

lemma get_symbol_policies_fold_no_libs:
  assumes "\<forall>p \<in> set ps. ref_libs p = []"
  shows "set (fold (\<lambda>policy result.
             if ref_priority policy = 0 then result
             else (let policy_symbols = policy_symbols_of vs evs policy
                   in result @ [(versioned_symbols_policy e policy_symbols, policy_symbols)]))
       ps acc) \<subseteq> set acc \<union> {(versioned_symbols_policy e vs, vs)}"
  using assms
proof (induction ps arbitrary: acc)
  case Nil
  then show ?case by auto
next
  case (Cons p ps)
  have l: "policy_symbols_of vs evs p = vs"
    by (rule policy_symbols_of_no_libs) (simp add: Cons.prems)
  from Cons.prems have rest: "\<forall>q \<in> set ps. ref_libs q = []" by simp
  show ?case
  proof (cases "ref_priority p = 0")
    case True
    with Cons.IH [OF rest, where acc = acc] show ?thesis by simp
  next
    case False
    with Cons.IH [OF rest, where acc = "acc @ [(versioned_symbols_policy e vs, vs)]"]
    show ?thesis by (simp add: l Let_def)
  qed
qed

lemma symbol_policy_of_no_libs:
  assumes "\<forall>(name, p) \<in> set external_refs. ref_libs p = []"
  shows "symbol_policy_of e vs evs external_refs = (versioned_symbols_policy e vs, vs)"
proof -
  have "\<forall>p \<in> set (map snd external_refs). ref_libs p = []"
    using assms by auto
  from get_symbol_policies_fold_no_libs
    [OF this, where e = e and vs = vs and evs = evs and acc = "[]"]
  have "set (get_symbol_policies e vs evs external_refs) \<subseteq> {(versioned_symbols_policy e vs, vs)}"
    by (simp add: get_symbol_policies_def)
  then have "\<And>y. y \<in> set (get_symbol_policies e vs evs external_refs) \<Longrightarrow>
      y = (versioned_symbols_policy e vs, vs)"
    by blast
  then show ?thesis
    unfolding symbol_policy_of_def Let_def by (rule py_max_key_all_default)
qed

text \<open>
  C5. When \<^verbatim>\<open>analyze_wheel_abi\<close> returns and no policy has an external library in the
  external references it reports, the symbol sub-tag is the name of the
  priority-from-symbols value of the package's own versioned-symbol set, and the
  versioned-symbol set it reports is that set.
\<close>

theorem no_external_libs_own_symbols:
  assumes "analyze_wheel_abi e fs cache wheel_fn = (Inr info, cache')"
    and "\<forall>(name, p) \<in> set (info_external_refs info). ref_libs p = []"
  shows "\<exists>data. get_wheel_elfdata e fs cache wheel_fn = (Inr data, cache') \<and>
           sym_tag info =
             get_policy_name e (versioned_symbols_policy e (d_versioned_symbols data)) \<and>
           info_versioned_symbols info = d_versioned_symbols data"
proof -
  from assms(1) obtain data p where
    d: "get_wheel_elfdata e fs cache wheel_fn = (Inr data, cache')"
    and p: "analyze_priorities e data = Inr p"
    and i: "info = name_priorities e p"
    by (auto simp: analyze_wheel_abi_def split: prod.splits sum.splits)
  from p obtain evs where
    s: "symbol_policy_of e (d_versioned_symbols data) evs (p_external_refs p) =
           (p_symbol_policy p, p_versioned_symbols p)"
    by (rule analyze_priorities_Inr)
  have "\<forall>(name, q) \<in> set (p_external_refs p). ref_libs q = []"
    using assms(2) by (simp add: i name_priorities_def)
  from symbol_policy_of_no_libs
    [OF this, where e = e and vs = "d_versioned_symbols data" and evs = evs] s
  have "p_symbol_policy p = versioned_symbols_policy e (d_versioned_symbols data)"
    and "p_versioned_symbols p = d_versioned_symbols data"
    by simp_all
  with d show ?thesis by (simp add: i name_priorities_def)
qed

theorem no_external_libs_own_symbols_witness:
  "\<exists>info cache'.
     analyze_wheel_abi ex_env (\<lambda>fn. ex_clean_wheel) [] ''w.whl'' = (Inr info, cache') \<and>
     sym_tag info = Some ''manylinux1'' \<and>
     info_versioned_symbols info = [(''libc.so.6'', {''GLIBC_2.5''})]"
proof -
  have "\<exists>info cache'.
     analyze_wheel_abi ex_env (\<lambda>fn. ex_clean_wheel) [] ''w.whl'' = (Inr info, cache') \<and>
     list_all (\<lambda>(name, p). ref_libs p = []) (info_external_refs info)"
    by (simp add: ex_defs elfdata_defs analyze_defs)
  then obtain info cache' where
    a: "analyze_wheel_abi ex_env (\<lambda>fn. ex_clean_wheel) [] ''w.whl'' = (Inr info, cache')"
    and l: "\<forall>(name, p) \<in> set (info_external_refs info). ref_libs p = []"
    unfolding list_all_iff by blast
  from no_external_libs_own_symbols [OF a l] obtain data where
    d: "get_wheel_elfdata ex_env (\<lambda>fn. ex_clean_wheel) [] ''w.whl'' = (Inr data, cache')"
    and s: "sym_tag info =
      get_policy_name ex_env (versioned_symbols_policy ex_env (d_versioned_symbols data))"
    and v: "info_versioned_symbols info = d_versioned_symbols data"
    by blast
  from d have "d_versioned_symbols data = [(''libc.so.6'', {''GLIBC_2.5''})]"
    by (auto simp: ex_defs elfdata_defs)
  with s v have "sym_tag info = Some ''manylinux1''"
    and "info_versioned_symbols info = [(''libc.so.6'', {''GLIBC_2.5''})]"
    by (simp_all add: ex_defs vs_get_def)
  with a show ?thesis by blast
qed

section \<open>Enlarging the versioned symbols of an object\<close>

lemma vs_le_refl: "vs_le a a"
  by (simp add: vs_le_def)

lemma vs_le_add_versioned_symbols:
  assumes "vs_le d d'"
    and "set (elf_versioned_symbols elf) \<subseteq> set (elf_versioned_symbols elf')"
  shows "vs_le (add_versioned_symbols elf d) (add_versioned_symbols elf' d')"
  using assms
  unfolding vs_le_def vs_get_add_versioned_symbols elf_find_versioned_symbols_def
  by blast

lemma process_elf_enlarged:
  assumes "enlarged_file f f'" and "enlarged_data st st'"
  shows "enlarged_data (process_elf e path f st) (process_elf e path f' st')"
proof -
  from assms(1) have f: "file_fn f' = file_fn f" "file_is_py_ext f' = file_is_py_ext f"
    "file_py_ver f' = file_py_ver f" "file_elftree f' = file_elftree f"
    "elf_references_PyFPE_jbuf (file_elf f') = elf_references_PyFPE_jbuf (file_elf f)"
    "elf_find_ucs2_symbols (file_elf f') = elf_find_ucs2_symbols (file_elf f)"
    and sub: "set (elf_versioned_symbols (file_elf f)) \<subseteq> set (elf_versioned_symbols (file_elf f'))"
    by (simp_all add: enlarged_file_def elf_references_PyFPE_jbuf_def elf_find_ucs2_symbols_def)
  from assms(2) have st: "d_full_elftree st' = d_full_elftree st"
    "d_nonpy_elftree st' = d_nonpy_elftree st"
    "d_full_external_refs st' = d_full_external_refs st"
    "d_uses_ucs2_symbols st' = d_uses_ucs2_symbols st"
    "d_uses_PyFPE_jbuf st' = d_uses_PyFPE_jbuf st"
    and le: "vs_le (d_versioned_symbols st) (d_versioned_symbols st')"
    by (simp_all add: enlarged_data_def)
  have "vs_le (d_versioned_symbols (process_elf e path f st))
      (d_versioned_symbols (process_elf e path f' st'))"
    unfolding versioned_symbols_process_elf by (rule vs_le_add_versioned_symbols [OF le sub])
  then show ?thesis
    unfolding enlarged_data_def trees_process_elf flags_process_elf f st by simp
qed

lemma elf_loop_enlarged:
  assumes "list_all2 enlarged_file fs fs'" and "enlarged_data st st'"
    and "elf_loop e path fs st = Inr r"
  shows "\<exists>r'. elf_loop e path fs' st' = Inr r' \<and> enlarged_data r r'"
  using assms
proof (induction fs fs' arbitrary: st st' rule: list_all2_induct)
  case Nil
  then show ?case by simp
next
  case (Cons f fs f' fs')
  from Cons.hyps(1) have fn: "file_fn f' = file_fn f" by (simp add: enlarged_file_def)
  note np = elf_loop_Cons_Inr(1) [OF Cons.prems(2)]
  note rest = elf_loop_Cons_Inr(2) [OF Cons.prems(2)]
  from Cons.IH [OF process_elf_enlarged [OF Cons.hyps(1) Cons.prems(1)] rest]
  show ?case using np by (simp add: fn Let_def)
qed

lemma promote_fold_fields:
  "d_full_elftree
     (fold (\<lambda>(fn, tree) acc.
              if P fn then
                acc\<lparr>d_full_elftree := dict_set fn tree (d_full_elftree acc),
                    d_full_external_refs := dict_set fn (g tree) (d_full_external_refs acc)\<rparr>
              else acc) xs st) =
   fold (\<lambda>(fn, tree) acc. if P fn then dict_set fn tree acc else acc) xs (d_full_elftree st)"
  "d_full_external_refs
     (fold (\<lambda>(fn, tree) acc.
              if P fn then
                acc\<lparr>d_full_elftree := dict_set fn tree (d_full_elftree acc),
                    d_full_external_refs := dict_set fn (g tree) (d_full_external_refs acc)\<rparr>
              else acc) xs st) =
   fold (\<lambda>(fn, tree) acc. if P fn then dict_set fn (g tree) acc else acc) xs
     (d_full_external_refs st)"
  by (induction xs arbitrary: st) (simp_all add: case_prod_beta)

lemma promote_nonpy_enlarged:
  assumes "enlarged_data st st'"
  shows "enlarged_data (promote_nonpy e path st) (promote_nonpy e path st')"
proof -
  from assms have st: "d_full_elftree st' = d_full_elftree st"
    "d_nonpy_elftree st' = d_nonpy_elftree st"
    "d_full_external_refs st' = d_full_external_refs st"
    "d_uses_ucs2_symbols st' = d_uses_ucs2_symbols st"
    "d_uses_PyFPE_jbuf st' = d_uses_PyFPE_jbuf st"
    and le: "vs_le (d_versioned_symbols st) (d_versioned_symbols st')"
    by (simp_all add: enlarged_data_def)
  have n: "needed_libs st' = needed_libs st" by (simp add: needed_libs_def st)
  have "d_full_elftree (promote_nonpy e path st') = d_full_elftree (promote_nonpy e path st)"
    "d_full_external_refs (promote_nonpy e path st') =
       d_full_external_refs (promote_nonpy e path st)"
    unfolding promote_nonpy_def Let_def promote_fold_fields n st by simp_all
  with st le show ?thesis
    by (simp add: enlarged_data_def flags_promote_nonpy versioned_symbols_promote_nonpy)
qed

lemma get_wheel_elfdata_wrapped_enlarged:
  assumes "enlarged w w'" and "get_wheel_elfdata_wrapped e w = Inr data"
  shows "\<exists>data'. get_wheel_elfdata_wrapped e w' = Inr data' \<and> enlarged_data data data'"
proof -
  from assms(2) obtain st where
    loop: "elf_loop e (ctx_path w) (wheel_files w) empty_elfdata = Inr st"
    and data: "data = promote_nonpy e (ctx_path w) st"
    by (rule get_wheel_elfdata_wrapped_Inr)
  from assms(1) have p: "ctx_path w' = ctx_path w"
    and l: "list_all2 enlarged_file (wheel_files w) (wheel_files w')"
    by (simp_all add: enlarged_def)
  have "enlarged_data empty_elfdata empty_elfdata"
    by (simp add: enlarged_data_def vs_le_refl)
  from elf_loop_enlarged [OF l this loop] obtain st' where
    loop': "elf_loop e (ctx_path w) (wheel_files w') empty_elfdata = Inr st'"
    and e: "enlarged_data st st'"
    by blast
  from loop' have "get_wheel_elfdata_wrapped e w' = Inr (promote_nonpy e (ctx_path w) st')"
    by (simp add: get_wheel_elfdata_wrapped_def p)
  with promote_nonpy_enlarged [OF e] show ?thesis by (simp add: data)
qed


lemma vs_get_vs_update:
  "vs_get (vs_update k s d) k' = (if k' = k then vs_get d k \<union> s else vs_get d k')"
  by (simp add: vs_get_def vs_update_def map_of_dict_set)

lemma vs_le_fold:
  assumes "\<And>x a b. vs_le a b \<Longrightarrow> vs_le (step x a) (step x b)"
    and "vs_le a b"
  shows "vs_le (fold step xs a) (fold step xs b)"
  using assms(2)
proof (induction xs arbitrary: a b)
  case Nil
  then show ?case by simp
next
  case (Cons x xs)
  from Cons.IH [OF assms(1) [OF Cons.prems]] show ?case by simp
qed

lemma vs_le_vs_update: "vs_le a b \<Longrightarrow> vs_le (vs_update k s a) (vs_update k s b)"
  unfolding vs_le_def vs_get_vs_update by auto

lemma vs_le_policy_symbols_of:
  assumes "vs_le a b"
  shows "vs_le (policy_symbols_of a evs policy) (policy_symbols_of b evs policy)"
  unfolding policy_symbols_of_def
proof (rule vs_le_fold [OF _ assms])
  fix soname and a b :: vsyms
  assume ab: "vs_le a b"
  show "vs_le
      (case map_of evs soname of
         None \<Rightarrow> a
       | Some ext_symbols \<Rightarrow>
           fold (\<lambda>k acc. vs_update k (vs_get ext_symbols k) acc) (map fst ext_symbols) a)
      (case map_of evs soname of
         None \<Rightarrow> b
       | Some ext_symbols \<Rightarrow>
           fold (\<lambda>k acc. vs_update k (vs_get ext_symbols k) acc) (map fst ext_symbols) b)"
  proof (cases "map_of evs soname")
    case None
    with ab show ?thesis by simp
  next
    case (Some ext)
    have "vs_le (fold (\<lambda>k acc. vs_update k (vs_get ext k) acc) (map fst ext) a)
        (fold (\<lambda>k acc. vs_update k (vs_get ext k) acc) (map fst ext) b)"
      by (rule vs_le_fold [OF vs_le_vs_update ab])
    with Some show ?thesis by simp
  qed
qed

lemma get_symbol_policies_fold_map:
  "fold (\<lambda>policy result.
           if ref_priority policy = 0 then result
           else (let policy_symbols = policy_symbols_of vs evs policy
                 in result @ [(versioned_symbols_policy e policy_symbols, policy_symbols)]))
     ps acc =
   acc @ map (\<lambda>policy. (versioned_symbols_policy e (policy_symbols_of vs evs policy),
                        policy_symbols_of vs evs policy))
           (filter (\<lambda>policy. ref_priority policy \<noteq> 0) ps)"
  by (induction ps arbitrary: acc) (simp_all add: Let_def)

lemma get_symbol_policies_map:
  "get_symbol_policies e vs evs external_refs =
     map (\<lambda>policy. (versioned_symbols_policy e (policy_symbols_of vs evs policy),
                    policy_symbols_of vs evs policy))
       (filter (\<lambda>policy. ref_priority policy \<noteq> 0) (map snd external_refs))"
  by (simp add: get_symbol_policies_def get_symbol_policies_fold_map)

lemma fold_max_key_le:
  fixes key :: "'a \<Rightarrow> int" and key' :: "'b \<Rightarrow> int"
  assumes "list_all2 (\<lambda>x y. key x \<le> key' y) xs ys" and "key x \<le> key' y"
  shows "key (fold (\<lambda>y best. if key best < key y then y else best) xs x)
       \<le> key' (fold (\<lambda>y best. if key' best < key' y then y else best) ys y)"
  using assms
proof (induction xs ys arbitrary: x y rule: list_all2_induct)
  case Nil
  then show ?case by simp
next
  case (Cons a xs b ys)
  have "key (if key x < key a then a else x) \<le> key' (if key' y < key' b then b else y)"
    using Cons.hyps(1) Cons.prems by auto
  from Cons.IH [OF this] show ?case by simp
qed

lemma py_max_key_le:
  fixes key :: "'a \<Rightarrow> int" and key' :: "'b \<Rightarrow> int"
  assumes "list_all2 (\<lambda>x y. key x \<le> key' y) xs ys" and "key d \<le> key' d'"
  shows "key (py_max_key key xs d) \<le> key' (py_max_key key' ys d')"
proof (cases xs)
  case Nil
  with assms show ?thesis by (simp add: py_max_key_def)
next
  case (Cons x rest)
  with assms(1) obtain y rest' where ys: "ys = y # rest'" and xy: "key x \<le> key' y"
    and r: "list_all2 (\<lambda>x y. key x \<le> key' y) rest rest'"
    by (auto simp: list_all2_Cons1)
  from fold_max_key_le [OF r xy] show ?thesis by (simp add: py_max_key_def Cons ys)
qed

lemma symbol_policy_of_le:
  assumes "\<And>policy. versioned_symbols_policy e (policy_symbols_of vs evs policy)
             \<le> versioned_symbols_policy e (policy_symbols_of vs' evs policy)"
    and "versioned_symbols_policy e vs \<le> versioned_symbols_policy e vs'"
  shows "fst (symbol_policy_of e vs evs external_refs)
       \<le> fst (symbol_policy_of e vs' evs external_refs)"
  unfolding symbol_policy_of_def Let_def get_symbol_policies_map
  by (rule py_max_key_le) (simp_all add: list_all2_map1 list_all2_map2 list_all2_same assms)


lemma analyze_priorities_enlarged:
  assumes "enlarged_data data data'" and "analyze_priorities e data = Inr p"
  shows "\<exists>p'. analyze_priorities e data' = Inr p' \<and>
           (superset_never_lower (versioned_symbols_policy e) \<longrightarrow>
              p_symbol_policy p \<le> p_symbol_policy p') \<and>
           (superset_never_higher (versioned_symbols_policy e) \<longrightarrow>
              p_symbol_policy p' \<le> p_symbol_policy p)"
proof -
  from assms(1) have d: "d_full_elftree data' = d_full_elftree data"
    "d_full_external_refs data' = d_full_external_refs data"
    and le: "vs_le (d_versioned_symbols data) (d_versioned_symbols data')"
    by (simp_all add: enlarged_data_def)
  let ?refs = "p_external_refs p"
  let ?vs = "d_versioned_symbols data"
  let ?vs' = "d_versioned_symbols data'"
  from assms(2) obtain evs where
    acc: "accumulate_refs (initial_refs e) (map fst (d_full_elftree data))
       (d_full_external_refs data) = Inr ?refs"
    and gvs: "get_versioned_symbols e (get_external_libs ?refs) = Inr evs"
    and sp: "symbol_policy_of e ?vs evs ?refs = (p_symbol_policy p, p_versioned_symbols p)"
    by (rule analyze_priorities_Inr)
  obtain sp' vs'' where sp': "symbol_policy_of e ?vs' evs ?refs = (sp', vs'')"
    by (cases "symbol_policy_of e ?vs' evs ?refs")
  let ?p' = "\<lparr>p_external_refs = ?refs, p_versioned_symbols = vs'', p_symbol_policy = sp',
      p_ref_policy = ref_policy_of e ?refs,
      p_ucs_policy = flag_policy_of e (d_uses_ucs2_symbols data'),
      p_pyfpe_policy = flag_policy_of e (d_uses_PyFPE_jbuf data')\<rparr>"
  have run: "analyze_priorities e data' = Inr ?p'"
    unfolding analyze_priorities_typed d by (simp add: acc gvs sp')
  have lower: "p_symbol_policy p \<le> sp'" if m: "superset_never_lower (versioned_symbols_policy e)"
  proof -
    from m have mono: "\<And>a b. vs_le a b \<Longrightarrow>
        versioned_symbols_policy e a \<le> versioned_symbols_policy e b"
      by (simp add: superset_never_lower_def)
    have "fst (symbol_policy_of e ?vs evs ?refs) \<le> fst (symbol_policy_of e ?vs' evs ?refs)"
      by (rule symbol_policy_of_le) (rule mono, rule vs_le_policy_symbols_of [OF le], rule mono [OF le])
    then show ?thesis by (simp add: sp sp')
  qed
  have higher: "sp' \<le> p_symbol_policy p" if m: "superset_never_higher (versioned_symbols_policy e)"
  proof -
    from m have anti: "\<And>a b. vs_le a b \<Longrightarrow>
        versioned_symbols_policy e b \<le> versioned_symbols_policy e a"
      by (simp add: superset_never_higher_def)
    have "fst (symbol_policy_of e ?vs' evs ?refs) \<le> fst (symbol_policy_of e ?vs evs ?refs)"
      by (rule symbol_policy_of_le) (rule anti, rule vs_le_policy_symbols_of [OF le], rule anti [OF le])
    then show ?thesis by (simp add: sp sp')
  qed
  from run lower higher show ?thesis by auto
qed

lemma list_all_keys_iff:
  "list_all (\<lambda>k. vs_get vs k \<subseteq> A) (map fst vs) \<longleftrightarrow> (\<forall>k. vs_get vs k \<subseteq> A)"
proof
  assume l: "list_all (\<lambda>k. vs_get vs k \<subseteq> A) (map fst vs)"
  show "\<forall>k. vs_get vs k \<subseteq> A"
  proof
    fix k
    show "vs_get vs k \<subseteq> A"
    proof (cases "k \<in> fst ` set vs")
      case True
      with l show ?thesis by (auto simp: list_all_iff)
    next
      case False
      then have "map_of vs k = None" by (simp add: map_of_eq_None_iff)
      then show ?thesis by (simp add: vs_get_def)
    qed
  qed
next
  assume "\<forall>k. vs_get vs k \<subseteq> A"
  then show "list_all (\<lambda>k. vs_get vs k \<subseteq> A) (map fst vs)" by (simp add: list_all_iff)
qed

lemma ex_symbols_policy_never_higher: "superset_never_higher (versioned_symbols_policy ex_env)"
proof -
  have "ex_symbols_policy b \<le> ex_symbols_policy a" if "vs_le a b" for a b
  proof -
    from that have "\<And>A. \<forall>k. vs_get b k \<subseteq> A \<Longrightarrow> \<forall>k. vs_get a k \<subseteq> A"
      unfolding vs_le_def by blast
    then show ?thesis
      unfolding ex_symbols_policy_def list_all_keys_iff by auto
  qed
  then show ?thesis by (simp add: superset_never_higher_def ex_env_def)
qed

lemma ex_count_policy_never_lower: "superset_never_lower (versioned_symbols_policy ex_count_env)"
proof -
  have "vs_get a ''libc.so.6'' \<subseteq> {''GLIBC_2.5''}"
    if "vs_le a b" and "vs_get b ''libc.so.6'' \<subseteq> {''GLIBC_2.5''}" for a b
    using that unfolding vs_le_def by blast
  then show ?thesis
    by (auto simp: superset_never_lower_def ex_count_env_def)
qed

lemma ex_enlarged: "enlarged ex_clean_wheel ex_enlarged_wheel"
  by (auto simp: enlarged_def enlarged_file_def ex_clean_wheel_def ex_enlarged_wheel_def
      ex_ext_def ex_elf_def)


lemma ex_clean_priority:
  "\<exists>data p. get_wheel_elfdata_wrapped ex_env ex_clean_wheel = Inr data \<and>
            analyze_priorities ex_env data = Inr p \<and> p_symbol_policy p = 100"
  by (simp add: ex_defs elfdata_defs analyze_defs)

lemma ex_clean_count_priority:
  "\<exists>data p. get_wheel_elfdata_wrapped ex_count_env ex_clean_wheel = Inr data \<and>
            analyze_priorities ex_count_env data = Inr p \<and> p_symbol_policy p = 0"
  by (simp add: ex_count_env_def ex_defs elfdata_defs analyze_defs)

lemma ex_enlarged_count_priority:
  "\<exists>data p. get_wheel_elfdata_wrapped ex_count_env ex_enlarged_wheel = Inr data \<and>
            analyze_priorities ex_count_env data = Inr p \<and> p_symbol_policy p = 100"
  by (simp add: ex_count_env_def ex_enlarged_wheel_def ex_defs elfdata_defs analyze_defs)

text \<open>
  C6, as the code has it. When the objects of a package are given more versioned
  symbols and nothing else changes, the analysis still returns, and the priority of the
  symbol sub-tag follows the priority-from-symbols function: if a superset of
  requirements never yields a lower priority, the priority of the sub-tag stays the
  same or becomes higher; if a superset never yields a higher priority, it stays the
  same or becomes lower.
\<close>

theorem enlarging_moves_symbol_priority:
  assumes "enlarged w w'"
    and "get_wheel_elfdata_wrapped e w = Inr data"
    and "analyze_priorities e data = Inr p"
  shows "\<exists>data' p'.
           get_wheel_elfdata_wrapped e w' = Inr data' \<and>
           analyze_priorities e data' = Inr p' \<and>
           (superset_never_lower (versioned_symbols_policy e) \<longrightarrow>
              p_symbol_policy p \<le> p_symbol_policy p') \<and>
           (superset_never_higher (versioned_symbols_policy e) \<longrightarrow>
              p_symbol_policy p' \<le> p_symbol_policy p)"
proof -
  from get_wheel_elfdata_wrapped_enlarged [OF assms(1,2)] obtain data' where
    d: "get_wheel_elfdata_wrapped e w' = Inr data'" and e: "enlarged_data data data'"
    by blast
  from analyze_priorities_enlarged [OF e assms(3)] d show ?thesis by blast
qed

theorem enlarging_moves_symbol_priority_witness:
  "enlarged ex_clean_wheel ex_enlarged_wheel \<and>
   superset_never_higher (versioned_symbols_policy ex_env) \<and>
   (\<exists>data p data' p'.
      get_wheel_elfdata_wrapped ex_env ex_clean_wheel = Inr data \<and>
      analyze_priorities ex_env data = Inr p \<and>
      get_wheel_elfdata_wrapped ex_env ex_enlarged_wheel = Inr data' \<and>
      analyze_priorities ex_env data' = Inr p' \<and>
      p_symbol_policy p = 100 \<and> p_symbol_policy p' \<le> p_symbol_policy p) \<and>
   superset_never_lower (versioned_symbols_policy ex_count_env) \<and>
   (\<exists>data p data' p'.
      get_wheel_elfdata_wrapped ex_count_env ex_clean_wheel = Inr data \<and>
      analyze_priorities ex_count_env data = Inr p \<and>
      get_wheel_elfdata_wrapped ex_count_env ex_enlarged_wheel = Inr data' \<and>
      analyze_priorities ex_count_env data' = Inr p' \<and>
      p_symbol_policy p = 0 \<and> p_symbol_policy p \<le> p_symbol_policy p')"
proof -
  from ex_clean_priority obtain data p where
    d: "get_wheel_elfdata_wrapped ex_env ex_clean_wheel = Inr data"
    and p: "analyze_priorities ex_env data = Inr p" and v: "p_symbol_policy p = 100"
    by blast
  from enlarging_moves_symbol_priority [OF ex_enlarged d p] ex_symbols_policy_never_higher
  obtain data' p' where
    "get_wheel_elfdata_wrapped ex_env ex_enlarged_wheel = Inr data'"
    "analyze_priorities ex_env data' = Inr p'"
    "p_symbol_policy p' \<le> p_symbol_policy p"
    by blast
  with d p v have a: "\<exists>data p data' p'.
      get_wheel_elfdata_wrapped ex_env ex_clean_wheel = Inr data \<and>
      analyze_priorities ex_env data = Inr p \<and>
      get_wheel_elfdata_wrapped ex_env ex_enlarged_wheel = Inr data' \<and>
      analyze_priorities ex_env data' = Inr p' \<and>
      p_symbol_policy p = 100 \<and> p_symbol_policy p' \<le> p_symbol_policy p"
    by blast
  from ex_clean_count_priority obtain data p where
    d: "get_wheel_elfdata_wrapped ex_count_env ex_clean_wheel = Inr data"
    and p: "analyze_priorities ex_count_env data = Inr p" and v: "p_symbol_policy p = 0"
    by blast
  from enlarging_moves_symbol_priority [OF ex_enlarged d p] ex_count_policy_never_lower
  obtain data' p' where
    "get_wheel_elfdata_wrapped ex_count_env ex_enlarged_wheel = Inr data'"
    "analyze_priorities ex_count_env data' = Inr p'"
    "p_symbol_policy p \<le> p_symbol_policy p'"
    by blast
  with d p v have b: "\<exists>data p data' p'.
      get_wheel_elfdata_wrapped ex_count_env ex_clean_wheel = Inr data \<and>
      analyze_priorities ex_count_env data = Inr p \<and>
      get_wheel_elfdata_wrapped ex_count_env ex_enlarged_wheel = Inr data' \<and>
      analyze_priorities ex_count_env data' = Inr p' \<and>
      p_symbol_policy p = 0 \<and> p_symbol_policy p \<le> p_symbol_policy p'"
    by blast
  from ex_enlarged ex_symbols_policy_never_higher a ex_count_policy_never_lower b
  show ?thesis by (intro conjI)
qed

text \<open>
  C6, as stated, fails: with a priority-from-symbols function for which a superset of
  requirements never yields a lower priority, one more versioned symbol in the extension
  module raises the priority of the symbol sub-tag from 0 to 100, which is more
  permissive.
\<close>

theorem enlarging_never_more_permissive_counterexample:
  "superset_never_lower (versioned_symbols_policy ex_count_env) \<and>
   enlarged ex_clean_wheel ex_enlarged_wheel \<and>
   (\<exists>data p data' p'.
      get_wheel_elfdata_wrapped ex_count_env ex_clean_wheel = Inr data \<and>
      analyze_priorities ex_count_env data = Inr p \<and>
      get_wheel_elfdata_wrapped ex_count_env ex_enlarged_wheel = Inr data' \<and>
      analyze_priorities ex_count_env data' = Inr p' \<and>
      p_symbol_policy p = 0 \<and> p_symbol_policy p' = 100 \<and>
      \<not> p_symbol_policy p' \<le> p_symbol_policy p)"
proof -
  from ex_clean_count_priority obtain data p where
    a: "get_wheel_elfdata_wrapped ex_count_env ex_clean_wheel = Inr data"
    "analyze_priorities ex_count_env data = Inr p" "p_symbol_policy p = 0"
    by blast
  from ex_enlarged_count_priority obtain data' p' where
    b: "get_wheel_elfdata_wrapped ex_count_env ex_enlarged_wheel = Inr data'"
    "analyze_priorities ex_count_env data' = Inr p'" "p_symbol_policy p' = 100"
    by blast
  from a b have "\<not> p_symbol_policy p' \<le> p_symbol_policy p" by simp
  with a b ex_count_policy_never_lower ex_enlarged show ?thesis by blast
qed

end
